theory Spec2Isabelle
  imports Complex_Main
begin

section \<open>Python values and errors\<close>

text \<open>
  Exceptions of the Python source are values: a function that can raise returns
  \<open>py_error + 'a\<close>, with \<open>Inl\<close> for the exception.
\<close>

datatype py_error = IndexError | ValueError | ZeroDivisionError

text \<open>
  Python's \<open>xs[i]\<close> on a list: a negative index counts from the end, an index
  outside \<open>-len(xs) .. len(xs) - 1\<close> raises \<open>IndexError\<close>.
\<close>

definition py_getitem :: "'a list \<Rightarrow> int \<Rightarrow> py_error + 'a" where
  "py_getitem xs i =
     (if - int (length xs) \<le> i \<and> i < int (length xs)
      then Inr (xs ! nat (i mod int (length xs)))
      else Inl IndexError)"

section \<open>core/instances/instance\_header.py\<close>

text \<open>
  \<^verbatim>\<open>
  class InstanceHeader(BaseObject):
      def __init__(self, header = None):
          self.header = header
      def get_header_label_at(self, header_index = -1):
          if self.header is not None:
              return self.header[header_index] if ((header_index > -1) and
                  (header_index < len(self.header))) else None
          else:
              return None
  \<close>
  The field \<open>header\<close> is \<open>None\<close> or a list; the method returns an entry or
  \<open>None\<close>, so its result is an option inside the error sum.
\<close>

record 'a InstanceHeader =
  header :: "'a list option"

definition InstanceHeader_init :: "'a list option \<Rightarrow> 'a InstanceHeader" where
  "InstanceHeader_init h = \<lparr>header = h\<rparr>"

definition get_header_label_at :: "'a InstanceHeader \<Rightarrow> int \<Rightarrow> py_error + 'a option" where
  "get_header_label_at self header_index =
     (case header self of
        Some hs \<Rightarrow>
          (if header_index > -1 \<and> header_index < int (length hs)
           then (case py_getitem hs header_index of Inl e \<Rightarrow> Inl e | Inr v \<Rightarrow> Inr (Some v))
           else Inr None)
      | None \<Rightarrow> Inr None)"

section \<open>evaluation/evaluate\_stream\_gen\_speed.py\<close>

text \<open>
  \<^verbatim>\<open>
  def __init__(self, num_samples=100000, max_time=float("inf"), output_file=None, batch_size=1):
      super().__init__()
      self.num_samples = num_samples
      self.max_time = max_time
      self.output_file = output_file
      self.batch_size = batch_size
  \<close>
  \<open>num_samples\<close> and \<open>batch_size\<close> are Python integers. \<open>max_time\<close> is a float
  that may be \<open>float("inf")\<close>: a value \<open>Some t\<close> is the finite bound \<open>t\<close>,
  \<open>None\<close> is infinity. The constructor stores its arguments and checks none of them;
  its result is still an error sum, so that "the constructor raises" can be stated.
\<close>

record EvaluateStreamGenerationSpeed =
  num_samples :: int
  max_time :: "real option"
  output_file :: "string option"
  batch_size :: int


text \<open>\<open>x <= bound\<close> where the bound may be \<open>float("inf")\<close> (\<open>None\<close>).\<close>

definition le_or_inf :: "'a::linorder \<Rightarrow> 'a option \<Rightarrow> bool" where
  "le_or_inf x bound = (case bound of None \<Rightarrow> True | Some b \<Rightarrow> x \<le> b)"

text \<open>
  \<^verbatim>\<open>
  def _measure_stream_speed(self, stream):
      sample_count = 0
      init_time = timer()
      true_percentage_index = 0
      stream_local_max = float("inf") if (stream.estimated_remaining_instances() == -1) \
          else stream.estimated_remaining_instances()
      while ((timer() - init_time <= self.max_time) & (sample_count+self.batch_size <= self.num_samples)
             & (sample_count+self.batch_size <= stream_local_max)):
          sample = stream.next_instance(self.batch_size)
          sample_count += self.batch_size
          while (float(sample_count) + self.batch_size >= (((true_percentage_index+1)*self.num_samples)/20)):
              true_percentage_index += 1
              logging.info('%s%%', str(true_percentage_index*5))
      end_time = timer()
      logging.info('Evaluation time: %s', str(round(end_time - init_time, 3)))
      logging.info('Generated %s samples', str(sample_count))
      logging.info('Samples/second = %s', str(round(sample_count/(end_time-init_time), 3)))
  \<close>
  \<open>measure_stream_speed\<close> is the method \<open>_measure_stream_speed\<close>. The wall clock is
  a parameter: \<open>elapsed k\<close> is \<open>timer() - init_time\<close> at the
  \<open>k\<close>-th call of \<open>timer()\<close> after \<open>init_time\<close> was taken (\<open>k\<close> from 0). The
  operator \<open>&\<close> evaluates all three comparisons, so the clock is read exactly once in
  every evaluation of the loop condition. Of the stream the function uses only the
  integer \<open>estimated_remaining_instances()\<close> (a parameter \<open>remaining\<close>) and
  \<open>next_instance(batch_size)\<close>, whose result it discards: the state records the batch
  size of every request, in order; a stream whose \<open>next_instance\<close> raises is outside
  the model. Arithmetic is exact (reals for the floats), and the rounding of the two
  logged numbers to three digits is left out.
\<close>

record speed_state =
  sample_count :: int
  true_percentage_index :: int
  timer_calls :: nat
  requested :: "int list"

text \<open>The inner \<open>while\<close>, which advances the logged percentage; it returns the new index.\<close>

partial_function (option) percentage_loop ::
  "EvaluateStreamGenerationSpeed \<Rightarrow> int \<Rightarrow> int \<Rightarrow> int option" where
  "percentage_loop self sc idx =
     (if real_of_int sc + real_of_int (batch_size self)
           \<ge> real_of_int ((idx + 1) * num_samples self) / 20
      then percentage_loop self sc (idx + 1)
      else Some idx)"

text \<open>The condition of the outer \<open>while\<close>, read in state \<open>s\<close>.\<close>

definition within_budget ::
  "(nat \<Rightarrow> real) \<Rightarrow> EvaluateStreamGenerationSpeed \<Rightarrow> int option \<Rightarrow> speed_state \<Rightarrow> bool" where
  "within_budget elapsed self stream_local_max s =
     (le_or_inf (elapsed (timer_calls s)) (max_time self)
      \<and> sample_count s + batch_size self \<le> num_samples self
      \<and> le_or_inf (sample_count s + batch_size self) stream_local_max)"

text \<open>
  The outer \<open>while\<close>. Each evaluation of its condition is one reading of the clock;
  the state returned has counted the last, failing evaluation too.
\<close>

partial_function (option) measure_loop ::
  "(nat \<Rightarrow> real) \<Rightarrow> EvaluateStreamGenerationSpeed \<Rightarrow> int option \<Rightarrow> speed_state
     \<Rightarrow> speed_state option" where
  "measure_loop elapsed self stream_local_max s =
     (if within_budget elapsed self stream_local_max s
      then Option.bind
             (percentage_loop self (sample_count s + batch_size self) (true_percentage_index s))
             (\<lambda>idx. measure_loop elapsed self stream_local_max
                      \<lparr>sample_count = sample_count s + batch_size self,
                       true_percentage_index = idx,
                       timer_calls = Suc (timer_calls s),
                       requested = requested s @ [batch_size self]\<rparr>)
      else Some (s\<lparr>timer_calls := Suc (timer_calls s)\<rparr>))"

text \<open>
  What the function leaves behind: the number it logs as generated, the elapsed time, the
  samples-per-second figure (whose division raises when no time has elapsed), the requests
  made to the stream and the number of times the budget was checked.
\<close>

record speed_report =
  generated :: int
  evaluation_time :: real
  samples_per_second :: "py_error + real"
  pulls :: "int list"
  budget_checks :: nat

definition measure_stream_speed ::
  "(nat \<Rightarrow> real) \<Rightarrow> EvaluateStreamGenerationSpeed \<Rightarrow> int \<Rightarrow> speed_report option" where
  "measure_stream_speed elapsed self remaining =
     (let stream_local_max = (if remaining = -1 then None else Some remaining) in
      case measure_loop elapsed self stream_local_max
             \<lparr>sample_count = 0, true_percentage_index = 0, timer_calls = 0, requested = []\<rparr> of
        None \<Rightarrow> None
      | Some s \<Rightarrow>
          Some \<lparr>generated = sample_count s,
                evaluation_time = elapsed (timer_calls s),
                samples_per_second =
                  (if elapsed (timer_calls s) = 0 then Inl ZeroDivisionError
                   else Inr (real_of_int (sample_count s) / elapsed (timer_calls s))),
                pulls = requested s,
                budget_checks = timer_calls s\<rparr>)"

text \<open>A clock on which one second passes before every reading.\<close>

definition steady_clock :: "nat \<Rightarrow> real" where
  "steady_clock k = real (Suc k)"

section \<open>data/generators/sea\_generator.py\<close>

text \<open>
  The generator draws from numpy's random module (\<open>self.instance_random = np.random\<close>).
  numpy is not part of the repository, so its generator is a parameter: a type \<open>'g\<close> of
  generator states, the state \<open>np_seed s\<close> that \<open>np.random.seed(s)\<close> installs, and
  \<open>np_rand\<close>, which is \<open>np.random.rand()\<close>: it returns a float and the next state.
  numpy's own checking of the seed value is not modelled. One generator object is
  modelled on its own: nothing else draws from the module's state between its calls.
\<close>

record 'g np_random =
  np_seed :: "int \<Rightarrow> 'g"
  np_rand :: "'g \<Rightarrow> real \<times> 'g"

text \<open>
  The fields of a \<open>SEAGenerator\<close>. The attributes that no method ever assigns after
  \<open>__init__\<close> are constants of the model: \<open>num_numerical_attributes = 3\<close>,
  \<open>num_nominal_attributes = 0\<close>, \<open>num_values_per_nominal_att = 0\<close>,
  \<open>num_classes = 2\<close>. The field \<open>instance_random\<close> holds the state of the random
  generator.
\<close>

record 'g SEAGenerator =
  current_instance_x :: "real list option"
  current_instance_y :: "real list option"
  classification_function_index :: int
  instance_seed :: int
  balance_classes :: bool
  noise_percentage :: real
  instance_random :: 'g
  next_class_should_be_zero :: bool
  class_header :: "string list"
  attributes_header :: "string list"

definition num_numerical_attributes :: nat where
  "num_numerical_attributes = 3"

text \<open>
  \<^verbatim>\<open>
  def classification_function_zero(self, att1, att2, att3):
      return 0 if (att1 + att2 <= 8) else 1
  \<close>
  and likewise \<open>one\<close> (threshold 9), \<open>two\<close> (7) and \<open>three\<close> (9.5).
\<close>

definition classification_function_zero :: "real \<Rightarrow> real \<Rightarrow> real \<Rightarrow> int" where
  "classification_function_zero att1 att2 att3 = (if att1 + att2 \<le> 8 then 0 else 1)"

definition classification_function_one :: "real \<Rightarrow> real \<Rightarrow> real \<Rightarrow> int" where
  "classification_function_one att1 att2 att3 = (if att1 + att2 \<le> 9 then 0 else 1)"

definition classification_function_two :: "real \<Rightarrow> real \<Rightarrow> real \<Rightarrow> int" where
  "classification_function_two att1 att2 att3 = (if att1 + att2 \<le> 7 then 0 else 1)"

definition classification_function_three :: "real \<Rightarrow> real \<Rightarrow> real \<Rightarrow> int" where
  "classification_function_three att1 att2 att3 = (if att1 + att2 \<le> 9.5 then 0 else 1)"

definition classification_functions :: "(real \<Rightarrow> real \<Rightarrow> real \<Rightarrow> int) list" where
  "classification_functions =
     [classification_function_zero, classification_function_one,
      classification_function_two, classification_function_three]"

text \<open>
  \<^verbatim>\<open>
  def __init__(self, classification_function = 0, instance_seed = 42, balance_classes = False,
               noise_percentage = 0.0):
      ...
      self.current_instance_x = None
      self.current_instance_y = None
      ...
      self.__configure(classification_function, instance_seed, balance_classes, noise_percentage)

  def __configure(self, classification_function, instance_seed, balance_classes, noise_percentage):
      self.classification_function_index = classification_function
      self.instance_seed = instance_seed
      self.balance_classes = balance_classes
      self.noise_percentage = noise_percentage
      self.instance_random = np.random
      self.instance_random.seed(self.instance_seed)
      self.next_class_should_be_zero = False
      self.class_header = ["class"]
      self.attributes_header = []
      for i in range(self.num_numerical_attributes):
          self.attributes_header.append("NumAtt" + str(i))
  \<close>
  Neither method checks an argument. The constructor's result is an error sum all the
  same, so that "the constructor raises" can be stated.
\<close>

definition configure ::
  "'g np_random \<Rightarrow> int \<Rightarrow> int \<Rightarrow> bool \<Rightarrow> real \<Rightarrow> 'g SEAGenerator" where
  "configure R classification_function seed balance noise =
     \<lparr>current_instance_x = None,
      current_instance_y = None,
      classification_function_index = classification_function,
      instance_seed = seed,
      balance_classes = balance,
      noise_percentage = noise,
      instance_random = np_seed R seed,
      next_class_should_be_zero = False,
      class_header = [''class''],
      attributes_header = [''NumAtt0'', ''NumAtt1'', ''NumAtt2'']\<rparr>"

definition SEAGenerator_init ::
  "'g np_random \<Rightarrow> int \<Rightarrow> int \<Rightarrow> bool \<Rightarrow> real \<Rightarrow> py_error + 'g SEAGenerator" where
  "SEAGenerator_init R classification_function seed balance noise =
     Inr (configure R classification_function seed balance noise)"

text \<open>
  \<^verbatim>\<open>
  def prepare_for_use(self):
      self.restart()

  def restart(self):
      self.instance_random.seed(self.instance_seed)
      self.next_class_should_be_zero = False
  \<close>
\<close>

definition restart :: "'g np_random \<Rightarrow> 'g SEAGenerator \<Rightarrow> 'g SEAGenerator" where
  "restart R self =
     self\<lparr>instance_random := np_seed R (instance_seed self),
          next_class_should_be_zero := False\<rparr>"

definition prepare_for_use :: "'g np_random \<Rightarrow> 'g SEAGenerator \<Rightarrow> 'g SEAGenerator" where
  "prepare_for_use R self = restart R self"

text \<open>
  \<^verbatim>\<open>
  def next_instance(self, batch_size = 1):
      data = np.zeros([batch_size, self.num_numerical_attributes + 1])
      for j in range (batch_size):
          att1 = att2 = att3 = 0.0
          group = 0
          desired_class_found = False
          while not desired_class_found:
              att1 = 10*self.instance_random.rand()
              att2 = 10*self.instance_random.rand()
              att3 = 10*self.instance_random.rand()
              group = self.classification_functions[self.classification_function_index](att1, att2, att3)
              if not self.balance_classes:
                  desired_class_found = True
              else:
                  if ((self.next_class_should_be_zero & (group == 0)) |
                      ((not self.next_class_should_be_zero) & (group == 1))):
                      desired_class_found = True
                      self.next_class_should_be_zero = not self.next_class_should_be_zero
          if ((0.01 + self.instance_random.rand() <= self.noise_percentage)):
              group = 1 if (group == 0) else 0
          data[j, 0] = att1
          data[j, 1] = att2
          data[j, 2] = att3
          data[j, 3] = group
          self.current_instance_x = data[j, :self.num_numerical_attributes]
          self.current_instance_y = data[j, self.num_numerical_attributes:]
      return (data[:, :self.num_numerical_attributes], data[:, self.num_numerical_attributes:].flatten())
  \<close>
  The \<open>while\<close> loop may run forever (with \<open>balance_classes\<close>, when the class wanted
  is never drawn), so it is a partial function: \<open>None\<close> is "does not return". It reads
  the index, \<open>balance_classes\<close>, \<open>next_class_should_be_zero\<close> and the generator state,
  and writes the last two; it returns the three attributes and the group, or the
  \<open>IndexError\<close> of the list lookup. Floats are reals: arithmetic is exact.
\<close>

partial_function (option) find_desired_class ::
  "'g np_random \<Rightarrow> int \<Rightarrow> bool \<Rightarrow> bool \<Rightarrow> 'g
     \<Rightarrow> (py_error + (real \<times> real \<times> real \<times> int) \<times> bool \<times> 'g) option" where
  "find_desired_class R idx balance zero_next g =
     (case np_rand R g of (r1, g1) \<Rightarrow>
       (case np_rand R g1 of (r2, g2) \<Rightarrow>
         (case np_rand R g2 of (r3, g3) \<Rightarrow>
           (case py_getitem classification_functions idx of
              Inl e \<Rightarrow> Some (Inl e)
            | Inr f \<Rightarrow>
                (if \<not> balance
                 then Some (Inr ((10 * r1, 10 * r2, 10 * r3,
                                  f (10 * r1) (10 * r2) (10 * r3)), zero_next, g3))
                 else if (zero_next \<and> f (10 * r1) (10 * r2) (10 * r3) = 0)
                         \<or> (\<not> zero_next \<and> f (10 * r1) (10 * r2) (10 * r3) = 1)
                 then Some (Inr ((10 * r1, 10 * r2, 10 * r3,
                                  f (10 * r1) (10 * r2) (10 * r3)), \<not> zero_next, g3))
                 else find_desired_class R idx balance zero_next g3)))))"

text \<open>
  One pass of the \<open>for\<close> loop: the sample found, the noise draw, the row of \<open>data\<close>
  and the fields written (\<open>grp\<close> is the source's \<open>group\<close> before the noise step,
  \<open>label\<close> after it).
\<close>

definition generate_row ::
  "'g np_random \<Rightarrow> 'g SEAGenerator \<Rightarrow> (py_error + real list \<times> 'g SEAGenerator) option" where
  "generate_row R self =
     (case find_desired_class R (classification_function_index self) (balance_classes self)
             (next_class_should_be_zero self) (instance_random self) of
        None \<Rightarrow> None
      | Some (Inl e) \<Rightarrow> Some (Inl e)
      | Some (Inr ((att1, att2, att3, grp), zero_next, g)) \<Rightarrow>
          (case np_rand R g of (r, g') \<Rightarrow>
             let label = (if 0.01 + r \<le> noise_percentage self
                           then (if grp = 0 then 1 else 0) else grp);
                 row = [att1, att2, att3, real_of_int label]
             in Some (Inr (row,
                  self\<lparr>next_class_should_be_zero := zero_next,
                       instance_random := g',
                       current_instance_x := Some (take num_numerical_attributes row),
                       current_instance_y := Some (drop num_numerical_attributes row)\<rparr>))))"

text \<open>The \<open>for\<close> loop over \<open>range(batch_size)\<close>: the rows of \<open>data\<close>, in order.\<close>

fun generate_rows ::
  "'g np_random \<Rightarrow> nat \<Rightarrow> 'g SEAGenerator \<Rightarrow> (py_error + real list list \<times> 'g SEAGenerator) option" where
  "generate_rows R 0 self = Some (Inr ([], self))"
| "generate_rows R (Suc n) self =
     (case generate_row R self of
        None \<Rightarrow> None
      | Some (Inl e) \<Rightarrow> Some (Inl e)
      | Some (Inr (row, self')) \<Rightarrow>
          (case generate_rows R n self' of
             None \<Rightarrow> None
           | Some (Inl e) \<Rightarrow> Some (Inl e)
           | Some (Inr (rows, self'')) \<Rightarrow> Some (Inr (row # rows, self''))))"

text \<open>
  \<open>np.zeros\<close> raises \<open>ValueError\<close> on a negative dimension (\<open>bsize\<close> is the
  argument \<open>batch_size\<close>). The result is the pair of
  the feature matrix and the flattened label column, with the generator as it is left.
\<close>

definition next_instance ::
  "'g np_random \<Rightarrow> 'g SEAGenerator \<Rightarrow> int
     \<Rightarrow> (py_error + (real list list \<times> real list) \<times> 'g SEAGenerator) option" where
  "next_instance R self bsize =
     (if bsize < 0 then Some (Inl ValueError)
      else case generate_rows R (nat bsize) self of
             None \<Rightarrow> None
           | Some (Inl e) \<Rightarrow> Some (Inl e)
           | Some (Inr (data, self')) \<Rightarrow>
               Some (Inr ((map (take num_numerical_attributes) data,
                           concat (map (drop num_numerical_attributes) data)), self')))"

text \<open>
  The outputs of consecutive \<open>next_instance\<close> calls with the batch sizes given, up to
  and including the first call that raises or does not return.
\<close>

fun next_instances ::
  "'g np_random \<Rightarrow> 'g SEAGenerator \<Rightarrow> int list
     \<Rightarrow> (py_error + real list list \<times> real list) option list" where
  "next_instances R self [] = []"
| "next_instances R self (b # bs) =
     (case next_instance R self b of
        None \<Rightarrow> [None]
      | Some (Inl e) \<Rightarrow> [Some (Inl e)]
      | Some (Inr (out, self')) \<Rightarrow> Some (Inr out) # next_instances R self' bs)"

text \<open>
  Two generator objects agree on every field that \<open>next_instance\<close> reads: the index
  of the classification function, \<open>balance_classes\<close>, \<open>noise_percentage\<close>,
  \<open>next_class_should_be_zero\<close> and the state of the random generator.
\<close>

definition same_source :: "'g SEAGenerator \<Rightarrow> 'g SEAGenerator \<Rightarrow> bool" where
  "same_source a b =
     (classification_function_index a = classification_function_index b
      \<and> balance_classes a = balance_classes b
      \<and> noise_percentage a = noise_percentage b
      \<and> next_class_should_be_zero a = next_class_should_be_zero b
      \<and> instance_random a = instance_random b)"

text \<open>
  The draws a generator state will deliver: \<open>draw R g k\<close> is the value of the
  \<open>k\<close>-th call of \<open>rand()\<close> from state \<open>g\<close> on (\<open>k\<close> from 0).
\<close>

primrec after_draws :: "'g np_random \<Rightarrow> nat \<Rightarrow> 'g \<Rightarrow> 'g" where
  "after_draws R 0 g = g"
| "after_draws R (Suc k) g = after_draws R k (snd (np_rand R g))"

definition draw :: "'g np_random \<Rightarrow> 'g \<Rightarrow> nat \<Rightarrow> real" where
  "draw R g k = fst (np_rand R (after_draws R k g))"

text \<open>
  The label function as the documentation states it: the threshold of each
  classification function, and the comparison of \<open>att1 + att2\<close> with it.
\<close>

definition sea_threshold :: "int \<Rightarrow> real" where
  "sea_threshold i = (if i = 0 then 8 else if i = 1 then 9 else if i = 2 then 7 else 9.5)"

definition threshold_label :: "real \<Rightarrow> real \<Rightarrow> real \<Rightarrow> real" where
  "threshold_label t att1 att2 = (if att1 + att2 \<le> t then 0 else 1)"

text \<open>
  The row expected of an unbalanced generator for sample \<open>j\<close> of a batch:
  three attributes from draws \<open>4j\<close>, \<open>4j+1\<close>, \<open>4j+2\<close>, and the threshold label,
  flipped when the noise draw \<open>4j+3\<close> satisfies \<open>0.01 + r \<le> noise_percentage\<close>.
\<close>

definition sea_row :: "'g np_random \<Rightarrow> int \<Rightarrow> real \<Rightarrow> 'g \<Rightarrow> nat \<Rightarrow> real list" where
  "sea_row R idx noise g j =
     [10 * draw R g (4 * j), 10 * draw R g (4 * j + 1), 10 * draw R g (4 * j + 2),
      (let base = threshold_label (sea_threshold idx)
                    (10 * draw R g (4 * j)) (10 * draw R g (4 * j + 1))
       in if 0.01 + draw R g (4 * j + 3) \<le> noise then 1 - base else base)]"

text \<open>A generator whose every draw is \<open>0.0\<close>, the least value \<open>rand()\<close> can return.\<close>

definition zero_draws :: "unit np_random" where
  "zero_draws = \<lparr>np_seed = (\<lambda>s. ()), np_rand = (\<lambda>g. (0, ()))\<rparr>"

text \<open>
  A generator that counts: seeded with \<open>s\<close> it draws \<open>0.0, 0.1, \<dots>, 0.9\<close> in turn,
  starting at the last digit of \<open>s\<close>.
\<close>

definition counting_draws :: "nat np_random" where
  "counting_draws = \<lparr>np_seed = (\<lambda>s. nat s), np_rand = (\<lambda>g. (real (g mod 10) / 10, Suc g))\<rparr>"

section \<open>demos/\_test\_oza\_bagging\_adwin.py\<close>

text \<open>
  The demo drives a classifier (\<open>OzaBaggingAdwin\<close> over \<open>KNNAdwin\<close>) with a stream.
  The classifier's code is not among the source files, so the classifier is a parameter:
  a type \<open>'c\<close> of classifier states with \<open>predict\<close>, which returns \<open>None\<close> or a
  vector of labels, and \<open>partial_fit\<close>, which returns the updated classifier; its last
  argument is the optional \<open>classes\<close>. The stream is a parameter in the same way:
  \<open>next_instance(n)\<close> returns a batch (features, labels) and the advanced stream.
\<close>

record ('s, 'x, 'y) stream_ops =
  stream_next :: "'s \<Rightarrow> int \<Rightarrow> ('x list \<times> 'y list) \<times> 's"
  stream_classes :: "'s \<Rightarrow> 'y list"

record ('c, 'x, 'y) classifier_ops =
  clf_predict :: "'c \<Rightarrow> 'x list \<Rightarrow> 'y list option"
  clf_partial_fit :: "'c \<Rightarrow> 'x list \<Rightarrow> 'y list \<Rightarrow> 'y list option \<Rightarrow> 'c"

text \<open>
  The calls the demo makes on the stream and the classifier, in program order. A batch is
  named by the ordinal of the \<open>next_instance\<close> call that produced it (from 0):
  \<open>NextInstance k n\<close> is the \<open>k\<close>-th pull, of \<open>n\<close> instances; \<open>Predict k p\<close> is
  \<open>clf.predict\<close> on the features of batch \<open>k\<close>, returning \<open>p\<close>;
  \<open>PartialFit k y c\<close> is \<open>clf.partial_fit\<close> on batch \<open>k\<close>, whose labels are \<open>y\<close>,
  with \<open>classes\<close> passed when \<open>c\<close> holds.
\<close>

datatype 'y call =
    NextInstance (batch_of: nat) int
  | Predict (batch_of: nat) "'y list option"
  | PartialFit (batch_of: nat) "'y list" bool

text \<open>
  The local variables of \<open>demo\<close> (\<open>demo_sample_count\<close> is the source's
  \<open>sample_count\<close>), with the calls made so far and the number of pulls.
\<close>

record ('s, 'c, 'y) demo_state =
  stream :: 's
  clf :: 'c
  demo_sample_count :: int
  correctly_classified :: int
  first :: bool
  calls :: "'y call list"
  n_pulls :: nat

text \<open>
  \<^verbatim>\<open>
  if my_pred is not None:
      if y[0] == my_pred[0]:
          correctly_classified += 1
  \<close>
  The increment of \<open>correctly_classified\<close>, or the \<open>IndexError\<close> of an empty vector.
\<close>

definition score :: "'y list \<Rightarrow> 'y list option \<Rightarrow> py_error + int" where
  "score y my_pred =
     (case my_pred of
        None \<Rightarrow> Inr 0
      | Some p \<Rightarrow>
          (case py_getitem y 0 of
             Inl e \<Rightarrow> Inl e
           | Inr a \<Rightarrow>
               (case py_getitem p 0 of
                  Inl e \<Rightarrow> Inl e
                | Inr b \<Rightarrow> Inr (if a = b then 1 else 0))))"

text \<open>
  \<^verbatim>\<open>
  while sample_count < max_samples:
      if sample_count % (max_samples/20) == 0:
          logging.info('%s%%', str((sample_count//(max_samples/20)*5)))
      X, y = stream.next_instance()
      my_pred = clf.predict(X)
      if first:
          clf.partial_fit(X, y, classes=stream.get_classes())
          first = False
      else:
          clf.partial_fit(X, y)
      if my_pred is not None:
          if y[0] == my_pred[0]:
              correctly_classified += 1
      sample_count += 1
  \<close>
  The logging line touches neither the stream nor the classifier and cannot raise inside
  the loop (\<open>max_samples\<close> is positive there); it is left out. The loop returns the
  state it stopped in and the exception that stopped it, if any.
\<close>

function demo_loop ::
  "('s, 'x, 'y) stream_ops \<Rightarrow> ('c, 'x, 'y) classifier_ops \<Rightarrow> int
     \<Rightarrow> ('s, 'c, 'y) demo_state \<Rightarrow> ('s, 'c, 'y) demo_state \<times> py_error option" where
  "demo_loop S C max_samples s =
     (if demo_sample_count s < max_samples
      then
        (let batch = fst (stream_next S (stream s) 1);
             X = fst batch;
             y = snd batch;
             stream' = snd (stream_next S (stream s) 1);
             my_pred = clf_predict C (clf s) X;
             clf' = (if first s
                     then clf_partial_fit C (clf s) X y (Some (stream_classes S stream'))
                     else clf_partial_fit C (clf s) X y None);
             s' = s\<lparr>stream := stream', clf := clf', first := False,
                    calls := calls s @ [NextInstance (n_pulls s) 1, Predict (n_pulls s) my_pred,
                                        PartialFit (n_pulls s) y (first s)],
                    n_pulls := Suc (n_pulls s)\<rparr>
         in case score y my_pred of
              Inl e \<Rightarrow> (s', Some e)
            | Inr c \<Rightarrow>
                demo_loop S C max_samples
                  (s'\<lparr>correctly_classified := correctly_classified s + c,
                      demo_sample_count := demo_sample_count s + 1\<rparr>))
      else (s, None))"
  by pat_completeness auto
termination
  by (relation "measure (\<lambda>(S, C, max_samples, s). nat (max_samples - demo_sample_count s))") auto

declare demo_loop.simps [simp del]

text \<open>
  \<^verbatim>\<open>
  def demo():
      stream = SEAGenerator(1, noise_percentage=6.7)
      stream.prepare_for_use()
      clf = OzaBaggingAdwin(h=KNNAdwin(k=8,max_window_size=2000,leaf_size=30), ensemble_length=2)
      sample_count = 0
      correctly_classified = 0
      max_samples = 20000
      train_size = 10
      first = True
      if train_size > 0:
          X, y = stream.next_instance(train_size)
          clf.partial_fit(X, y, classes=stream.get_classes())
          first = False
      while sample_count < max_samples: ...
      print(str(sample_count) + ' samples analyzed.')
      print('My performance: ' + str(correctly_classified / sample_count))
  \<close>
  \<open>demo_run\<close> is the body of \<open>demo\<close> with the stream, the classifier and the two
  constants \<open>max_samples\<close> and \<open>train_size\<close> as parameters; \<open>demo\<close> fixes the
  constants as the source does. The result is the final state and the performance
  printed, or the exception raised.
\<close>

definition demo_run ::
  "('s, 'x, 'y) stream_ops \<Rightarrow> ('c, 'x, 'y) classifier_ops \<Rightarrow> 's \<Rightarrow> 'c \<Rightarrow> int \<Rightarrow> int
     \<Rightarrow> ('s, 'c, 'y) demo_state \<times> (py_error + real)" where
  "demo_run S C stream0 clf0 max_samples train_size =
     (let s0 = \<lparr>stream = stream0, clf = clf0, demo_sample_count = 0, correctly_classified = 0,
                first = True, calls = [], n_pulls = 0\<rparr>;
          s1 = (if train_size > 0
                then (let batch = fst (stream_next S stream0 train_size);
                          stream' = snd (stream_next S stream0 train_size)
                      in s0\<lparr>stream := stream',
                            clf := clf_partial_fit C clf0 (fst batch) (snd batch)
                                     (Some (stream_classes S stream')),
                            first := False,
                            calls := [NextInstance 0 train_size, PartialFit 0 (snd batch) True],
                            n_pulls := 1\<rparr>)
                else s0);
          final = demo_loop S C max_samples s1
      in (fst final,
          case snd final of
            Some e \<Rightarrow> Inl e
          | None \<Rightarrow>
              (if demo_sample_count (fst final) = 0 then Inl ZeroDivisionError
               else Inr (real_of_int (correctly_classified (fst final))
                         / real_of_int (demo_sample_count (fst final))))))"

definition demo ::
  "('s, 'x, 'y) stream_ops \<Rightarrow> ('c, 'x, 'y) classifier_ops \<Rightarrow> 's \<Rightarrow> 'c
     \<Rightarrow> ('s, 'c, 'y) demo_state \<times> (py_error + real)" where
  "demo S C stream0 clf0 = demo_run S C stream0 clf0 20000 10"

text \<open>
  Counting over a list of calls: the predictions made (every \<open>Predict\<close>, those that
  returned \<open>None\<close> included), the predictions that returned a value, and the hits, the
  predictions whose first label equals the first label of the batch they were made for.
\<close>

fun is_predict :: "'y call \<Rightarrow> bool" where
  "is_predict (Predict k p) = True"
| "is_predict c = False"

fun is_answer :: "'y call \<Rightarrow> bool" where
  "is_answer (Predict k (Some p)) = True"
| "is_answer c = False"

fun hits :: "'y call list \<Rightarrow> int" where
  "hits (Predict k p # PartialFit k' y c # cs) =
     (case score y p of Inr h \<Rightarrow> h | Inl e \<Rightarrow> 0) + hits cs"
| "hits (c # cs) = hits cs"
| "hits [] = 0"

text \<open>
  The calls of consecutive iterations of the loop, the first on batch \<open>k\<close>: each
  iteration is a pull of one instance, the prediction \<open>p\<close> for it, and then the fit
  with its labels \<open>y\<close>.
\<close>

fun loop_trace :: "nat \<Rightarrow> ('y list option \<times> 'y list \<times> bool) list \<Rightarrow> 'y call list" where
  "loop_trace k [] = []"
| "loop_trace k ((p, y, c) # rest) =
     NextInstance k 1 # Predict k p # PartialFit k y c # loop_trace (Suc k) rest"

text \<open>
  A stream whose every instance has the label \<open>True\<close>, and a classifier that abstains
  (\<open>None\<close>) until it has been fitted with more than ten instances and is right ever
  after; its state is the number of instances it has been fitted with.
\<close>

definition constant_stream :: "(unit, unit, bool) stream_ops" where
  "constant_stream =
     \<lparr>stream_next = (\<lambda>s n. ((replicate (nat n) (), replicate (nat n) True), s)),
      stream_classes = (\<lambda>s. [False, True])\<rparr>"

definition cold_classifier :: "(nat, unit, bool) classifier_ops" where
  "cold_classifier =
     \<lparr>clf_predict = (\<lambda>c X. if c \<le> 10 then None else Some (replicate (length X) True)),
      clf_partial_fit = (\<lambda>c X y classes. c + length X)\<rparr>"

section \<open>Properties of InstanceHeader\<close>

lemma py_getitem_in_range:
  "0 \<le> i \<Longrightarrow> i < int (length xs) \<Longrightarrow> py_getitem xs i = Inr (xs ! nat i)"
  by (simp add: py_getitem_def)

text \<open>
  Claim C10. For every header \<open>h\<close> and every integer index \<open>i\<close>,
  \<open>get_header_label_at\<close> returns the entry \<open>h.header[i]\<close> when the header is a
  list and \<open>0 \<le> i < len(h.header)\<close>, and returns \<open>None\<close> in every other case:
  a negative index (the default \<open>-1\<close> included, which is never read from the end of
  the list), an index at or beyond the length, and a header that is \<open>None\<close>. The
  call never raises: the result is always an \<open>Inr\<close>.
\<close>

theorem get_header_label_at_bounds_safe:
  "get_header_label_at h i =
     Inr (case header h of
            None \<Rightarrow> None
          | Some hs \<Rightarrow> if 0 \<le> i \<and> i < int (length hs) then Some (hs ! nat i) else None)"
  by (cases "header h") (auto simp: get_header_label_at_def py_getitem_in_range)

section \<open>Properties of the stream-speed evaluator\<close>

subsection \<open>The inner loop returns\<close>

lemma div_le_imp_less_mult:
  fixes a n i :: int
  assumes "0 < n" and "a div n \<le> i"
  shows "a < (i + 1) * n"
proof -
  have "a = (a div n) * n + a mod n" by simp
  moreover have "a mod n < n" using assms(1) by simp
  ultimately have "a < (a div n) * n + n" by linarith
  also have "\<dots> = (a div n + 1) * n" by (simp add: algebra_simps)
  also have "\<dots> \<le> (i + 1) * n" using assms by (intro mult_right_mono) simp_all
  finally show ?thesis .
qed

lemma percentage_cond_int:
  "(real_of_int sc + real_of_int bs \<ge> real_of_int ((idx + 1) * ns) / 20)
   \<longleftrightarrow> (idx + 1) * ns \<le> 20 * (sc + bs)"
proof -
  have "(real_of_int ((idx + 1) * ns) / 20 \<le> real_of_int sc + real_of_int bs)
        \<longleftrightarrow> real_of_int ((idx + 1) * ns) \<le> real_of_int (20 * (sc + bs))"
    by (simp add: field_simps)
  also have "\<dots> \<longleftrightarrow> (idx + 1) * ns \<le> 20 * (sc + bs)"
    by (rule of_int_le_iff)
  finally show ?thesis .
qed

lemma percentage_loop_unfold:
  "percentage_loop self sc idx =
     (if (idx + 1) * num_samples self \<le> 20 * (sc + batch_size self)
      then percentage_loop self sc (idx + 1) else Some idx)"
  by (subst percentage_loop.simps) (simp only: percentage_cond_int)

lemma percentage_loop_terminates:
  assumes "0 < num_samples self"
  shows "\<exists>j. percentage_loop self sc idx = Some j"
proof (induction "nat (20 * (sc + batch_size self) div num_samples self - idx)" arbitrary: idx)
  case 0
  then have "20 * (sc + batch_size self) div num_samples self \<le> idx" by simp
  with assms have "20 * (sc + batch_size self) < (idx + 1) * num_samples self"
    by (intro div_le_imp_less_mult)
  then show ?case
    by (subst percentage_loop_unfold) simp
next
  case (Suc m)
  show ?case
  proof (cases "(idx + 1) * num_samples self \<le> 20 * (sc + batch_size self)")
    case True
    have "m = nat (20 * (sc + batch_size self) div num_samples self - (idx + 1))"
      using Suc.hyps(2) by simp
    from Suc.hyps(1)[OF this] obtain j where "percentage_loop self sc (idx + 1) = Some j" by blast
    then show ?thesis
      using True by (subst percentage_loop_unfold) simp
  next
    case False
    then show ?thesis
      by (subst percentage_loop_unfold) simp
  qed
qed


subsection \<open>The outer loop\<close>

lemma measure_loop_stop:
  "\<not> within_budget e self lmax s \<Longrightarrow>
     measure_loop e self lmax s = Some (s\<lparr>timer_calls := Suc (timer_calls s)\<rparr>)"
  by (subst measure_loop.simps) simp

lemma measure_loop_step:
  "within_budget e self lmax s \<Longrightarrow>
   percentage_loop self (sample_count s + batch_size self) (true_percentage_index s) = Some idx \<Longrightarrow>
     measure_loop e self lmax s =
     measure_loop e self lmax
       \<lparr>sample_count = sample_count s + batch_size self, true_percentage_index = idx,
        timer_calls = Suc (timer_calls s), requested = requested s @ [batch_size self]\<rparr>"
  by (subst measure_loop.simps) simp

lemma le_or_inf_mono: "x \<le> y \<Longrightarrow> le_or_inf y b \<Longrightarrow> le_or_inf x b"
  by (cases b) (auto simp: le_or_inf_def)

lemma measure_loop_returns:
  assumes bs: "1 \<le> batch_size self"
  shows "0 \<le> sample_count s \<Longrightarrow>
         \<exists>r n. measure_loop e self lmax s = Some r
           \<and> requested r = requested s @ replicate n (batch_size self)
           \<and> sample_count r = sample_count s + int n * batch_size self
           \<and> timer_calls r = timer_calls s + n + 1
           \<and> (0 < n \<longrightarrow> sample_count r \<le> num_samples self \<and> le_or_inf (sample_count r) lmax)"
proof (induction "nat (num_samples self - sample_count s)" arbitrary: s rule: less_induct)
  case less
  show ?case
  proof (cases "within_budget e self lmax s")
    case False
    have "measure_loop e self lmax s = Some (s\<lparr>timer_calls := Suc (timer_calls s)\<rparr>)"
      using False by (rule measure_loop_stop)
    then show ?thesis
      by (intro exI[of _ "s\<lparr>timer_calls := Suc (timer_calls s)\<rparr>"] exI[of _ 0]) simp
  next
    case True
    then have le: "sample_count s + batch_size self \<le> num_samples self"
      and lm: "le_or_inf (sample_count s + batch_size self) lmax"
      by (simp_all add: within_budget_def)
    from le bs less.prems have "0 < num_samples self" by linarith
    then obtain idx where
      idx: "percentage_loop self (sample_count s + batch_size self) (true_percentage_index s) = Some idx"
      using percentage_loop_terminates by blast
    define s' where "s' = \<lparr>sample_count = sample_count s + batch_size self,
        true_percentage_index = idx, timer_calls = Suc (timer_calls s),
        requested = requested s @ [batch_size self]\<rparr>"
    have step: "measure_loop e self lmax s = measure_loop e self lmax s'"
      unfolding s'_def using True idx by (rule measure_loop_step)
    have "nat (num_samples self - sample_count s') < nat (num_samples self - sample_count s)"
      using le bs by (simp add: s'_def)
    moreover have "0 \<le> sample_count s'" using less.prems bs by (simp add: s'_def)
    ultimately obtain r n where r: "measure_loop e self lmax s' = Some r"
      "requested r = requested s' @ replicate n (batch_size self)"
      "sample_count r = sample_count s' + int n * batch_size self"
      "timer_calls r = timer_calls s' + n + 1"
      "0 < n \<longrightarrow> sample_count r \<le> num_samples self \<and> le_or_inf (sample_count r) lmax"
      using less.hyps[of s'] by blast
    have "requested r = requested s @ replicate (Suc n) (batch_size self)"
      using r(2) by (simp add: s'_def)
    moreover have "sample_count r = sample_count s + int (Suc n) * batch_size self"
      using r(3) by (simp add: s'_def algebra_simps)
    moreover have "timer_calls r = timer_calls s + Suc n + 1"
      using r(4) by (simp add: s'_def)
    moreover have "sample_count r \<le> num_samples self \<and> le_or_inf (sample_count r) lmax"
    proof (cases "n = 0")
      case True
      then show ?thesis using r(3) le lm by (simp add: s'_def)
    next
      case False
      then show ?thesis using r(5) by simp
    qed
    ultimately show ?thesis
      using step r(1) by (intro exI[of _ r] exI[of _ "Suc n"]) simp
  qed
qed

lemma measure_loop_at_least:
  assumes bs: "1 \<le> batch_size self"
  shows "0 \<le> sample_count s \<Longrightarrow>
         (\<forall>k. timer_calls s \<le> k \<and> k < timer_calls s + m \<longrightarrow> le_or_inf (e k) (max_time self)) \<Longrightarrow>
         sample_count s + int m * batch_size self \<le> num_samples self \<Longrightarrow>
         le_or_inf (sample_count s + int m * batch_size self) lmax \<Longrightarrow>
         \<exists>r n. measure_loop e self lmax s = Some r \<and> m \<le> n
           \<and> requested r = requested s @ replicate n (batch_size self)
           \<and> sample_count r = sample_count s + int n * batch_size self"
proof (induction m arbitrary: s)
  case 0
  then show ?case using measure_loop_returns[OF bs, of s e lmax] by auto
next
  case (Suc m)
  have le1: "sample_count s + batch_size self \<le> sample_count s + int (Suc m) * batch_size self"
    using bs by (simp add: algebra_simps)
  have "within_budget e self lmax s"
    unfolding within_budget_def
    using Suc.prems(2) le1 Suc.prems(3) le_or_inf_mono[OF le1 Suc.prems(4)] by auto
  moreover have "0 < num_samples self" using le1 Suc.prems(1,3) bs by linarith
  then obtain idx where
    idx: "percentage_loop self (sample_count s + batch_size self) (true_percentage_index s) = Some idx"
    using percentage_loop_terminates by blast
  define s' where "s' = \<lparr>sample_count = sample_count s + batch_size self,
      true_percentage_index = idx, timer_calls = Suc (timer_calls s),
      requested = requested s @ [batch_size self]\<rparr>"
  ultimately have step: "measure_loop e self lmax s = measure_loop e self lmax s'"
    unfolding s'_def using idx by (intro measure_loop_step)
  have eq: "sample_count s' + int m * batch_size self = sample_count s + int (Suc m) * batch_size self"
    by (simp add: s'_def algebra_simps)
  have "\<exists>r n. measure_loop e self lmax s' = Some r \<and> m \<le> n
           \<and> requested r = requested s' @ replicate n (batch_size self)
           \<and> sample_count r = sample_count s' + int n * batch_size self"
  proof (rule Suc.IH)
    show "0 \<le> sample_count s'" using Suc.prems(1) bs by (simp add: s'_def)
    show "\<forall>k. timer_calls s' \<le> k \<and> k < timer_calls s' + m \<longrightarrow> le_or_inf (e k) (max_time self)"
      using Suc.prems(2) by (simp add: s'_def)
    show "sample_count s' + int m * batch_size self \<le> num_samples self"
      using Suc.prems(3) unfolding eq .
    show "le_or_inf (sample_count s' + int m * batch_size self) lmax"
      using Suc.prems(4) unfolding eq .
  qed
  then obtain r n where r: "measure_loop e self lmax s' = Some r" "m \<le> n"
     "requested r = requested s' @ replicate n (batch_size self)"
     "sample_count r = sample_count s' + int n * batch_size self" by blast
  show ?case
    using step r by (intro exI[of _ r] exI[of _ "Suc n"]) (simp add: s'_def algebra_simps)
qed

lemma measure_loop_zero_batch_stuck:
  "measure_loop e self lmax s = Some r \<Longrightarrow> batch_size self = 0 \<Longrightarrow> max_time self = None \<Longrightarrow>
     \<not> (sample_count s \<le> num_samples self \<and> le_or_inf (sample_count s) lmax)"
proof (induct rule: measure_loop.raw_induct[rotated 1, consumes 1])
  case (1 f e self lmax s r)
  show ?case
  proof (cases "within_budget e self lmax s")
    case True
    with 1(2) obtain idx where
      "f e self lmax \<lparr>sample_count = sample_count s + batch_size self,
          true_percentage_index = idx, timer_calls = Suc (timer_calls s),
          requested = requested s @ [batch_size self]\<rparr> = Some r"
      by (auto simp: bind_eq_Some_conv)
    from 1(1)[OF this 1(3,4)] show ?thesis using 1(3) by simp
  next
    case False
    then show ?thesis using 1(3,4) by (simp add: within_budget_def le_or_inf_def)
  qed
qed

lemma measure_loop_zero_batch_diverges:
  assumes "batch_size self = 0" and "max_time self = None"
    and "sample_count s \<le> num_samples self" and "le_or_inf (sample_count s) lmax"
  shows "measure_loop e self lmax s = None"
  using measure_loop_zero_batch_stuck[OF _ assms(1,2), of e lmax s] assms(3,4)
  by (cases "measure_loop e self lmax s") auto

subsection \<open>The whole measurement\<close>

lemma times_le_imp_le_div:
  fixes a b :: int
  assumes "0 < b" and "int n * b \<le> a"
  shows "n \<le> nat (a div b)"
proof -
  have "int n = (int n * b) div b" using assms(1) by simp
  also have "\<dots> \<le> a div b" using assms by (intro zdiv_mono1) simp_all
  finally show ?thesis by simp
qed

lemma measure_stream_speed_returns:
  assumes bs: "1 \<le> batch_size self"
  shows "\<exists>r n. measure_stream_speed e self remaining = Some r
           \<and> pulls r = replicate n (batch_size self)
           \<and> generated r = int n * batch_size self
           \<and> budget_checks r = n + 1
           \<and> n \<le> nat (num_samples self div batch_size self)
           \<and> (remaining \<noteq> -1 \<longrightarrow> 0 \<le> remaining \<longrightarrow> n \<le> nat (remaining div batch_size self))
           \<and> evaluation_time r = e (n + 1)
           \<and> (isl (samples_per_second r) \<longleftrightarrow> evaluation_time r = 0)"
proof -
  define lmax where "lmax = (if remaining = -1 then None else Some remaining)"
  define s0 where "s0 = \<lparr>sample_count = 0, true_percentage_index = 0, timer_calls = 0, requested = []\<rparr>"
  have "0 \<le> sample_count s0" by (simp add: s0_def)
  from measure_loop_returns[OF bs this, of e lmax] obtain s n where
    s: "measure_loop e self lmax s0 = Some s"
       "requested s = replicate n (batch_size self)"
       "sample_count s = int n * batch_size self"
       "timer_calls s = n + 1"
       "0 < n \<longrightarrow> sample_count s \<le> num_samples self \<and> le_or_inf (sample_count s) lmax"
    by (auto simp: s0_def)
  have pos: "0 < batch_size self" using bs by simp
  have n1: "n \<le> nat (num_samples self div batch_size self)"
  proof (cases "n = 0")
    case False
    with s(5) have "int n * batch_size self \<le> num_samples self" by (simp add: s(3))
    with pos show ?thesis by (rule times_le_imp_le_div)
  qed simp
  have n2: "n \<le> nat (remaining div batch_size self)" if "remaining \<noteq> -1"
  proof (cases "n = 0")
    case False
    with s(5) that have "int n * batch_size self \<le> remaining"
      by (simp add: s(3) lmax_def le_or_inf_def)
    with pos show ?thesis by (rule times_le_imp_le_div)
  qed simp
  let ?r = "\<lparr>generated = sample_count s, evaluation_time = e (timer_calls s),
            samples_per_second = (if e (timer_calls s) = 0 then Inl ZeroDivisionError
               else Inr (real_of_int (sample_count s) / e (timer_calls s))),
            pulls = requested s, budget_checks = timer_calls s\<rparr>"
  have "measure_stream_speed e self remaining = Some ?r"
    using s(1) by (simp add: measure_stream_speed_def lmax_def s0_def)
  then show ?thesis
    using s(2,3,4) n1 n2 by (intro exI[of _ ?r] exI[of _ n]) simp
qed

lemma measure_stream_speed_zero_batch:
  assumes "batch_size self = 0" and "max_time self = None"
    and "0 \<le> num_samples self" and "-1 \<le> remaining"
  shows "measure_stream_speed e self remaining = None"
proof -
  have "measure_loop e self (if remaining = -1 then None else Some remaining)
          \<lparr>sample_count = 0, true_percentage_index = 0, timer_calls = 0, requested = []\<rparr> = None"
    using assms by (intro measure_loop_zero_batch_diverges) (auto simp: le_or_inf_def)
  then show ?thesis by (simp add: measure_stream_speed_def)
qed

subsection \<open>The sample budget and the time budget\<close>

text \<open>
  Claim C1, as the code has it. With \<open>num_samples = 100\<close>, \<open>batch_size = 1\<close> and an
  unbounded stream (\<open>estimated_remaining_instances() = -1\<close>) the measurement returns
  having pulled \<open>n\<close> single instances, \<open>sample_count = n\<close>, with \<open>n\<close> at most 100
  for every \<open>max_time\<close> and every clock; \<open>n\<close> is exactly 100 when the elapsed time
  read at each of the first 100 evaluations of the loop condition is within
  \<open>max_time\<close> (always so when \<open>max_time\<close> is infinite). The time budget is a guard of
  the loop, so the count does depend on \<open>max_time\<close>.
\<close>

theorem budget_of_100_on_unbounded_stream:
  "\<exists>r n. measure_stream_speed e
            \<lparr>num_samples = 100, max_time = mt, output_file = out, batch_size = 1\<rparr> (-1) = Some r
     \<and> generated r = int n \<and> pulls r = replicate n 1 \<and> n \<le> 100
     \<and> ((\<forall>k<100. le_or_inf (e k) mt) \<longrightarrow> n = 100)"
proof -
  let ?self = "\<lparr>num_samples = 100, max_time = mt, output_file = out, batch_size = 1\<rparr>"
  from measure_stream_speed_returns[of ?self e "-1"] obtain r n where
    r: "measure_stream_speed e ?self (-1) = Some r" "pulls r = replicate n 1"
       "generated r = int n" "n \<le> 100"
    by auto
  have "n = 100" if ok: "\<forall>k<100. le_or_inf (e k) mt"
  proof -
    let ?s0 = "\<lparr>sample_count = 0, true_percentage_index = 0, timer_calls = 0, requested = []\<rparr>"
    have "\<exists>s m. measure_loop e ?self None ?s0 = Some s \<and> 100 \<le> m
            \<and> requested s = requested ?s0 @ replicate m (batch_size ?self)
            \<and> sample_count s = sample_count ?s0 + int m * batch_size ?self"
      using ok by (intro measure_loop_at_least) (simp_all add: le_or_inf_def)
    then obtain s m where s: "measure_loop e ?self None ?s0 = Some s" "100 \<le> m"
       "requested s = replicate m 1" by auto
    from s(1) r(1) have "pulls r = requested s"
      by (auto simp: measure_stream_speed_def)
    with r(2) s(3) have "n = m" by (metis length_replicate)
    with s(2) r(4) show ?thesis by simp
  qed
  with r show ?thesis by blast
qed

theorem budget_of_100_on_unbounded_stream_witness:
  "\<exists>r. measure_stream_speed steady_clock
            \<lparr>num_samples = 100, max_time = Some 100, output_file = None, batch_size = 1\<rparr> (-1) = Some r
     \<and> generated r = 100 \<and> pulls r = replicate 100 1"
proof -
  have "\<forall>k<100. le_or_inf (steady_clock k) (Some 100)"
    by (simp add: le_or_inf_def steady_clock_def)
  with budget_of_100_on_unbounded_stream[of steady_clock "Some 100" None]
  show ?thesis by auto
qed

text \<open>
  The claim as stated ("exactly 100 regardless of \<open>max_time\<close>") fails: with
  \<open>max_time = 1\<close> second and a clock that advances one second per reading, the second
  evaluation of the loop condition already fails and one instance is generated.
\<close>

theorem budget_ignores_max_time_counterexample:
  "map_option generated
     (measure_stream_speed steady_clock
        \<lparr>num_samples = 100, max_time = Some 1, output_file = None, batch_size = 1\<rparr> (-1)) = Some 1"
  by (simp add: measure_stream_speed_def measure_loop.simps percentage_loop_unfold
        within_budget_def le_or_inf_def steady_clock_def)

text \<open>
  Claim C8. For every \<open>batch_size \<ge> 1\<close>, every integer \<open>num_samples\<close>, every
  \<open>max_time\<close>, clock and stream size, the measurement loop terminates after \<open>n\<close>
  iterations with \<open>n\<close> at most \<open>floor(num_samples / batch_size)\<close> (no iteration at
  all when that quotient is negative); each iteration makes exactly one request to the
  stream, of \<open>batch_size\<close> instances, and the budget is read once per evaluation of
  the loop condition: \<open>n + 1\<close> readings for \<open>n\<close> iterations, none inside a batch.
  The hypothesis \<open>batch_size \<ge> 1\<close> is needed: with \<open>batch_size = 0\<close>, a
  non-negative \<open>num_samples\<close>, no time limit and a stream that is unbounded or of any
  size \<open>\<ge> 0\<close>, the function never returns.
\<close>

theorem sample_budget_termination:
  "(1 \<le> batch_size self \<longrightarrow>
      (\<exists>r n. measure_stream_speed e self remaining = Some r
         \<and> n \<le> nat (num_samples self div batch_size self)
         \<and> pulls r = replicate n (batch_size self)
         \<and> budget_checks r = n + 1
         \<and> generated r = int n * batch_size self))
   \<and> (batch_size self = 0 \<and> 0 \<le> num_samples self \<and> max_time self = None \<and> -1 \<le> remaining \<longrightarrow>
        measure_stream_speed e self remaining = None)"
proof (intro conjI impI)
  assume "1 \<le> batch_size self"
  from measure_stream_speed_returns[OF this, of e remaining]
  show "\<exists>r n. measure_stream_speed e self remaining = Some r
         \<and> n \<le> nat (num_samples self div batch_size self)
         \<and> pulls r = replicate n (batch_size self)
         \<and> budget_checks r = n + 1
         \<and> generated r = int n * batch_size self"
    by blast
next
  assume "batch_size self = 0 \<and> 0 \<le> num_samples self \<and> max_time self = None \<and> -1 \<le> remaining"
  then show "measure_stream_speed e self remaining = None"
    by (intro measure_stream_speed_zero_batch) simp_all
qed

theorem sample_budget_termination_witness:
  "(\<exists>r n. measure_stream_speed steady_clock
        \<lparr>num_samples = 10, max_time = Some 5, output_file = None, batch_size = 3\<rparr> (-1) = Some r
       \<and> n \<le> 3 \<and> pulls r = replicate n 3 \<and> budget_checks r = n + 1 \<and> generated r = int n * 3)
   \<and> measure_stream_speed steady_clock
        \<lparr>num_samples = 10, max_time = None, output_file = None, batch_size = 0\<rparr> (-1) = None"
  using sample_budget_termination
          [of "\<lparr>num_samples = 10, max_time = Some 5, output_file = None, batch_size = 3\<rparr>"
              steady_clock "-1"]
        sample_budget_termination
          [of "\<lparr>num_samples = 10, max_time = None, output_file = None, batch_size = 0\<rparr>"
              steady_clock "-1"]
  by simp

subsection \<open>A stream that runs out\<close>




section \<open>Properties of the SEA generator\<close>

subsection \<open>Draws, and the rows of an unbalanced generator\<close>

lemma after_draws_add: "after_draws R (k + m) g = after_draws R k (after_draws R m g)"
  by (induction m arbitrary: g) simp_all

lemma draw_shift: "draw R (after_draws R m g) k = draw R g (k + m)"
  by (simp add: draw_def after_draws_add)

lemma classification_functions_lookup:
  assumes "0 \<le> idx" and "idx \<le> 3"
  shows "\<exists>f. py_getitem classification_functions idx = Inr f
           \<and> (\<forall>a b c. real_of_int (f a b c) = threshold_label (sea_threshold idx) a b)"
proof -
  from assms have "idx = 0 \<or> idx = 1 \<or> idx = 2 \<or> idx = 3" by auto
  then show ?thesis
    by (elim disjE)
       (simp_all add: py_getitem_def classification_functions_def sea_threshold_def
          threshold_label_def classification_function_zero_def classification_function_one_def
          classification_function_two_def classification_function_three_def)
qed

lemma draw_unfold:
  "draw R g 0 = fst (np_rand R g)"
  "draw R g 1 = fst (np_rand R (snd (np_rand R g)))"
  "draw R g (Suc 0) = fst (np_rand R (snd (np_rand R g)))"
  "draw R g 2 = fst (np_rand R (snd (np_rand R (snd (np_rand R g)))))"
  "draw R g 3 = fst (np_rand R (snd (np_rand R (snd (np_rand R (snd (np_rand R g)))))))"
  by (simp_all add: draw_def eval_nat_numeral)

lemma after_draws_unfold:
  "after_draws R 3 g = snd (np_rand R (snd (np_rand R (snd (np_rand R g)))))"
  "after_draws R 4 g = snd (np_rand R (snd (np_rand R (snd (np_rand R (snd (np_rand R g)))))))"
  by (simp_all add: eval_nat_numeral)

lemma find_desired_class_unbalanced:
  assumes "py_getitem classification_functions idx = Inr f"
  shows "find_desired_class R idx False zero_next g =
           Some (Inr ((10 * draw R g 0, 10 * draw R g 1, 10 * draw R g 2,
                       f (10 * draw R g 0) (10 * draw R g 1) (10 * draw R g 2)),
                      zero_next, after_draws R 3 g))"
  by (subst find_desired_class.simps)
     (simp add: assms draw_unfold after_draws_unfold split_beta)


lemma generate_row_sea_row:
  assumes "\<not> balance_classes self"
    and "0 \<le> classification_function_index self" and "classification_function_index self \<le> 3"
  shows "\<exists>self'. generate_row R self =
           Some (Inr (sea_row R (classification_function_index self) (noise_percentage self)
                        (instance_random self) 0, self'))
         \<and> instance_random self' = after_draws R 4 (instance_random self)
         \<and> balance_classes self' = balance_classes self
         \<and> classification_function_index self' = classification_function_index self
         \<and> noise_percentage self' = noise_percentage self"
proof -
  from classification_functions_lookup[OF assms(2,3)] obtain f where
    f: "py_getitem classification_functions (classification_function_index self) = Inr f"
       "\<And>a b c. real_of_int (f a b c) = threshold_label (sea_threshold (classification_function_index self)) a b"
    by blast
  have zero: "(f a b c = 0) = (threshold_label (sea_threshold (classification_function_index self)) a b = 0)" for a b c
    using f(2)[of a b c] by (metis of_int_eq_0_iff)
  have bin: "threshold_label t a b = 0 \<or> threshold_label t a b = 1" for t a b
    by (simp add: threshold_label_def)
  show ?thesis
    using assms(1) bin[of "sea_threshold (classification_function_index self)"
                          "10 * fst (np_rand R (instance_random self))"
                          "10 * fst (np_rand R (snd (np_rand R (instance_random self))))"]
    by (auto simp: generate_row_def find_desired_class_unbalanced[OF f(1)] f(2) zero Let_def
                   split_beta sea_row_def draw_def eval_nat_numeral)
qed

lemma sea_row_shift:
  "sea_row R idx noise (after_draws R 4 g) j = sea_row R idx noise g (Suc j)"
  by (simp add: sea_row_def draw_shift add.commute)

lemma generate_rows_unbalanced:
  "\<not> balance_classes self \<Longrightarrow>
   0 \<le> classification_function_index self \<Longrightarrow> classification_function_index self \<le> 3 \<Longrightarrow>
     \<exists>self'. generate_rows R n self =
       Some (Inr (map (sea_row R (classification_function_index self) (noise_percentage self)
                         (instance_random self)) [0..<n], self'))"
proof (induction n arbitrary: self)
  case 0
  then show ?case by simp
next
  case (Suc n)
  from generate_row_sea_row[OF Suc.prems, of R] obtain s1 where
    s1: "generate_row R self =
           Some (Inr (sea_row R (classification_function_index self) (noise_percentage self)
                        (instance_random self) 0, s1))"
        "instance_random s1 = after_draws R 4 (instance_random self)"
        "balance_classes s1 = balance_classes self"
        "classification_function_index s1 = classification_function_index self"
        "noise_percentage s1 = noise_percentage self"
    by blast
  from Suc.IH[of s1] Suc.prems s1 obtain s2 where
    s2: "generate_rows R n s1 =
           Some (Inr (map (sea_row R (classification_function_index self) (noise_percentage self)
                             (after_draws R 4 (instance_random self))) [0..<n], s2))"
    by auto
  show ?case
    by (simp add: s1(1) s2 sea_row_shift map_upt_Suc del: upt_Suc)
qed

lemma take_sea_row:
  "take num_numerical_attributes (sea_row R idx noise g j)
     = [10 * draw R g (4 * j), 10 * draw R g (4 * j + 1), 10 * draw R g (4 * j + 2)]"
  by (simp add: sea_row_def num_numerical_attributes_def)

lemma drop_sea_row:
  "drop num_numerical_attributes (sea_row R idx noise g j)
     = [let base = threshold_label (sea_threshold idx)
                    (10 * draw R g (4 * j)) (10 * draw R g (4 * j + 1))
        in if 0.01 + draw R g (4 * j + 3) \<le> noise then 1 - base else base]"
  by (simp add: sea_row_def num_numerical_attributes_def)

lemma next_instance_unbalanced:
  assumes "\<not> balance_classes self"
    and "0 \<le> classification_function_index self" and "classification_function_index self \<le> 3"
    and "0 \<le> n"
  shows "\<exists>self'. next_instance R self n =
     Some (Inr ((map (\<lambda>j. [10 * draw R (instance_random self) (4 * j),
                           10 * draw R (instance_random self) (4 * j + 1),
                           10 * draw R (instance_random self) (4 * j + 2)]) [0..<nat n],
                 map (\<lambda>j. let base = threshold_label (sea_threshold (classification_function_index self))
                                  (10 * draw R (instance_random self) (4 * j))
                                  (10 * draw R (instance_random self) (4 * j + 1))
                           in if 0.01 + draw R (instance_random self) (4 * j + 3) \<le> noise_percentage self
                              then 1 - base else base) [0..<nat n]), self'))"
proof -
  from generate_rows_unbalanced[OF assms(1-3), of R "nat n"] obtain s' where
    "generate_rows R (nat n) self =
       Some (Inr (map (sea_row R (classification_function_index self) (noise_percentage self)
                         (instance_random self)) [0..<nat n], s'))" by blast
  then show ?thesis
    using assms(4)
    by (simp add: next_instance_def o_def take_sea_row drop_sea_row)
qed

lemma draw_zero_draws: "draw zero_draws g k = 0"
  by (simp add: draw_def zero_draws_def)

lemma after_draws_counting: "after_draws counting_draws k g = g + k"
  by (induction k arbitrary: g) (simp_all add: counting_draws_def)

lemma draw_counting_draws: "draw counting_draws g k = real ((g + k) mod 10) / 10"
  by (simp add: draw_def after_draws_counting) (simp add: counting_draws_def)

subsection \<open>The label function and the noise step\<close>

text \<open>
  Claim C9, as the code has it. Take a generator with \<open>balance_classes = False\<close>, a
  classification function index in \<open>0..3\<close>, a batch size \<open>n \<ge> 0\<close>, and draws of
  \<open>rand()\<close> that lie in \<open>[0, 1)\<close>. Then \<open>next_instance(n)\<close> returns \<open>n\<close> samples;
  sample \<open>j\<close> has exactly three features, ten times the draws \<open>4j\<close>, \<open>4j+1\<close>,
  \<open>4j+2\<close>, each in \<open>[0, 10)\<close>; its label is first \<open>0\<close> if
  \<open>att1 + att2 \<le> T\<close> and \<open>1\<close> otherwise, \<open>T\<close> being 8, 9, 7, 9.5 for index 0, 1,
  2, 3 (\<open>sea_threshold\<close>), and is then flipped if and only if the next draw \<open>r\<close>
  (draw \<open>4j+3\<close>) satisfies \<open>0.01 + r \<le> noise_percentage\<close>. Consequently, whenever
  \<open>noise_percentage < 0.01\<close> no label is flipped and the label returned is the
  threshold function's.
\<close>

theorem sea_label_and_noise:
  assumes "\<not> balance_classes self"
    and "0 \<le> classification_function_index self" and "classification_function_index self \<le> 3"
    and "0 \<le> n"
    and "\<forall>g. 0 \<le> fst (np_rand R g) \<and> fst (np_rand R g) < 1"
  shows "\<exists>X y self'. next_instance R self n = Some (Inr ((X, y), self'))
     \<and> length X = nat n \<and> length y = nat n
     \<and> (\<forall>j < nat n.
          let r = draw R (instance_random self);
              base = threshold_label (sea_threshold (classification_function_index self))
                       (X ! j ! 0) (X ! j ! 1)
          in X ! j = [10 * r (4 * j), 10 * r (4 * j + 1), 10 * r (4 * j + 2)]
           \<and> (\<forall>a \<in> set (X ! j). 0 \<le> a \<and> a < 10)
           \<and> y ! j = (if 0.01 + r (4 * j + 3) \<le> noise_percentage self then 1 - base else base)
           \<and> (noise_percentage self < 0.01 \<longrightarrow> y ! j = base))"
proof -
  have range: "0 \<le> draw R g k \<and> draw R g k < 1" for g k
    using assms(5) by (simp add: draw_def)
  from next_instance_unbalanced[OF assms(1-4), of R] obtain s' where
    s': "next_instance R self n =
     Some (Inr ((map (\<lambda>j. [10 * draw R (instance_random self) (4 * j),
                           10 * draw R (instance_random self) (4 * j + 1),
                           10 * draw R (instance_random self) (4 * j + 2)]) [0..<nat n],
                 map (\<lambda>j. let base = threshold_label (sea_threshold (classification_function_index self))
                                  (10 * draw R (instance_random self) (4 * j))
                                  (10 * draw R (instance_random self) (4 * j + 1))
                           in if 0.01 + draw R (instance_random self) (4 * j + 3) \<le> noise_percentage self
                              then 1 - base else base) [0..<nat n]), s'))" by blast
  have noflip: "\<not> 0.01 + draw R g k \<le> noise_percentage self" if "noise_percentage self < 0.01" for g k
    using range[of g k] that by linarith
  show ?thesis
    apply (rule exI, rule exI, rule exI, rule conjI, rule s')
    using range noflip
    apply (simp add: Let_def)
    done
qed

lemma seed_counting_draws: "np_seed counting_draws s = nat s"
  by (simp add: counting_draws_def)

theorem sea_label_and_noise_witness:
  "\<exists>X y self'. next_instance counting_draws (configure counting_draws 2 0 False 0.5) 2
       = Some (Inr ((X, y), self'))
     \<and> length X = 2 \<and> length y = 2
     \<and> X ! 0 = [0, 1, 2] \<and> y ! 0 = 1 \<and> X ! 1 = [4, 5, 6] \<and> y ! 1 = 1"
proof -
  have range: "\<forall>g. 0 \<le> fst (np_rand counting_draws g) \<and> fst (np_rand counting_draws g) < 1"
    by (simp add: counting_draws_def)
  from sea_label_and_noise[of "configure counting_draws 2 0 False 0.5" 2 counting_draws, OF _ _ _ _ range]
  obtain X y self' where
    r: "next_instance counting_draws (configure counting_draws 2 0 False 0.5) 2 = Some (Inr ((X, y), self'))"
       "length X = 2" "length y = 2"
       "\<forall>j < 2.
          let r = draw counting_draws (instance_random (configure counting_draws 2 0 False 0.5));
              base = threshold_label (sea_threshold 2) (X ! j ! 0) (X ! j ! 1)
          in X ! j = [10 * r (4 * j), 10 * r (4 * j + 1), 10 * r (4 * j + 2)]
           \<and> (\<forall>a \<in> set (X ! j). 0 \<le> a \<and> a < 10)
           \<and> y ! j = (if 0.01 + r (4 * j + 3) \<le> 0.5 then 1 - base else base)
           \<and> (0.5 < (0.01::real) \<longrightarrow> y ! j = base)"
    by (auto simp: configure_def)
  from r(4)[rule_format, of 0] have "X ! 0 = [0, 1, 2] \<and> y ! 0 = 1"
    by (simp add: Let_def draw_counting_draws configure_def seed_counting_draws
          threshold_label_def sea_threshold_def)
  moreover from r(4)[rule_format, of 1] have "X ! 1 = [4, 5, 6] \<and> y ! 1 = 1"
    by (simp add: Let_def draw_counting_draws configure_def seed_counting_draws
          threshold_label_def sea_threshold_def)
  ultimately show ?thesis using r(1,2,3) by auto
qed

text \<open>
  The bound of the claim as stated, \<open>noise_percentage \<le> 0.01\<close>, is one value too wide:
  at \<open>noise_percentage = 0.01\<close> a noise draw of \<open>0.0\<close> satisfies
  \<open>0.01 + r \<le> noise_percentage\<close>, and the label is flipped. On draws that are all
  \<open>0.0\<close> the sample is \<open>(0, 0, 0)\<close>, whose threshold label is \<open>0\<close>, and the label
  returned is \<open>1\<close>.
\<close>

theorem noise_at_one_percent_flips_counterexample:
  "map_option (map_sum id fst)
     (next_instance zero_draws (configure zero_draws 0 42 False 0.01) 1)
     = Some (Inr ([[0, 0, 0]], [1]))
   \<and> threshold_label (sea_threshold 0) 0 0 = 0"
proof -
  from next_instance_unbalanced[of "configure zero_draws 0 42 False 0.01" 1 zero_draws]
  obtain self' where
    "next_instance zero_draws (configure zero_draws 0 42 False 0.01) 1 =
       Some (Inr (([[0, 0, 0]], [1]), self'))"
    by (auto simp: configure_def draw_zero_draws threshold_label_def sea_threshold_def)
  then show ?thesis
    by (simp add: threshold_label_def sea_threshold_def)
qed

subsection \<open>Restarting\<close>

lemma generate_row_same_source:
  assumes "same_source a b"
  shows "(generate_row R a = None \<and> generate_row R b = None)
       \<or> (\<exists>e. generate_row R a = Some (Inl e) \<and> generate_row R b = Some (Inl e))
       \<or> (\<exists>row a' b'. generate_row R a = Some (Inr (row, a'))
             \<and> generate_row R b = Some (Inr (row, b')) \<and> same_source a' b')"
proof -
  let ?found = "find_desired_class R (classification_function_index a) (balance_classes a)
                  (next_class_should_be_zero a) (instance_random a)"
  have eq: "find_desired_class R (classification_function_index b) (balance_classes b)
              (next_class_should_be_zero b) (instance_random b) = ?found"
    using assms by (simp add: same_source_def)
  have noise: "noise_percentage b = noise_percentage a"
    using assms by (simp add: same_source_def)
  show ?thesis
  proof (cases ?found)
    case None
    then show ?thesis by (simp add: generate_row_def eq)
  next
    case (Some res)
    show ?thesis
    proof (cases res)
      case (Inl e)
      with Some show ?thesis by (simp add: generate_row_def eq)
    next
      case (Inr v)
      obtain att1 att2 att3 grp zero_next g where v: "v = ((att1, att2, att3, grp), zero_next, g)"
        by (cases v) auto
      define label where "label = (if 0.01 + fst (np_rand R g) \<le> noise_percentage a
                                   then (if grp = 0 then 1 else 0) else grp)"
      define row where "row = [att1, att2, att3, real_of_int label]"
      define upd :: "'a SEAGenerator \<Rightarrow> 'a SEAGenerator" where
        "upd = (\<lambda>s. s\<lparr>next_class_should_be_zero := zero_next,
                       instance_random := snd (np_rand R g),
                       current_instance_x := Some (take num_numerical_attributes row),
                       current_instance_y := Some (drop num_numerical_attributes row)\<rparr>)"
      have ga: "generate_row R a = Some (Inr (row, upd a))"
        by (simp add: generate_row_def Some Inr v split_beta Let_def label_def row_def upd_def)
      have gb: "generate_row R b = Some (Inr (row, upd b))"
        unfolding generate_row_def eq noise
        by (simp add: Some Inr v split_beta Let_def label_def row_def upd_def)
      have "same_source (upd a) (upd b)"
        using assms by (simp add: same_source_def upd_def)
      with ga gb show ?thesis by blast
    qed
  qed
qed

lemma generate_rows_same_source:
  "same_source a b \<Longrightarrow>
     (generate_rows R n a = None \<and> generate_rows R n b = None)
       \<or> (\<exists>e. generate_rows R n a = Some (Inl e) \<and> generate_rows R n b = Some (Inl e))
       \<or> (\<exists>rows a' b'. generate_rows R n a = Some (Inr (rows, a'))
             \<and> generate_rows R n b = Some (Inr (rows, b')) \<and> same_source a' b')"
proof (induction n arbitrary: a b)
  case 0
  then show ?case by simp
next
  case (Suc n)
  from generate_row_same_source[OF Suc.prems, of R] show ?case
  proof (elim disjE conjE exE)
    assume "generate_row R a = None" "generate_row R b = None"
    then show ?thesis by simp
  next
    fix e assume "generate_row R a = Some (Inl e)" "generate_row R b = Some (Inl e)"
    then show ?thesis by simp
  next
    fix row a' b'
    assume row: "generate_row R a = Some (Inr (row, a'))" "generate_row R b = Some (Inr (row, b'))"
      and same: "same_source a' b'"
    from Suc.IH[OF same] show ?thesis
      using row by (elim disjE conjE exE) simp_all
  qed
qed

lemma next_instance_same_source:
  assumes "same_source a b"
  shows "(next_instance R a n = None \<and> next_instance R b n = None)
       \<or> (\<exists>e. next_instance R a n = Some (Inl e) \<and> next_instance R b n = Some (Inl e))
       \<or> (\<exists>out a' b'. next_instance R a n = Some (Inr (out, a'))
             \<and> next_instance R b n = Some (Inr (out, b')) \<and> same_source a' b')"
proof (cases "n < 0")
  case True
  then show ?thesis by (simp add: next_instance_def)
next
  case False
  from generate_rows_same_source[OF assms, of R "nat n"] show ?thesis
    using False by (elim disjE conjE exE) (simp_all add: next_instance_def)
qed

lemma next_instances_same_source:
  "same_source a b \<Longrightarrow> next_instances R a bs = next_instances R b bs"
proof (induction bs arbitrary: a b)
  case Nil
  then show ?case by simp
next
  case (Cons n bs)
  from next_instance_same_source[OF Cons.prems, of R n] show ?case
    using Cons.IH by (elim disjE conjE exE) simp_all
qed

text \<open>
  Claim C5. Let \<open>g\<close> be a generator object in any state, with any configuration.
  Constructing a generator with the configuration of \<open>g\<close> succeeds, and for every
  sequence of \<open>next_instance\<close> calls (any number of calls, any batch sizes) the
  sequence of (features, labels) outputs after \<open>g.restart()\<close> is the sequence after
  that construction followed by \<open>prepare_for_use()\<close>. \<open>restart\<close> seeds the random
  generator with \<open>instance_seed\<close> and resets \<open>next_class_should_be_zero\<close> to
  \<open>False\<close>; and \<open>prepare_for_use()\<close> twice in a row leaves the generator in the same
  state as \<open>prepare_for_use()\<close> once.
\<close>

theorem restart_determinism:
  "\<exists>fresh. SEAGenerator_init R (classification_function_index g) (instance_seed g)
              (balance_classes g) (noise_percentage g) = Inr fresh
     \<and> next_instances R (restart R g) bs = next_instances R (prepare_for_use R fresh) bs
     \<and> next_class_should_be_zero (restart R g) = False
     \<and> instance_random (restart R g) = np_seed R (instance_seed g)
     \<and> prepare_for_use R (prepare_for_use R g) = prepare_for_use R g"
proof -
  let ?fresh = "configure R (classification_function_index g) (instance_seed g)
                  (balance_classes g) (noise_percentage g)"
  have "same_source (restart R g) (prepare_for_use R ?fresh)"
    by (simp add: same_source_def restart_def prepare_for_use_def configure_def)
  then have "next_instances R (restart R g) bs = next_instances R (prepare_for_use R ?fresh) bs"
    by (rule next_instances_same_source)
  then show ?thesis
    by (intro exI[of _ ?fresh]) (simp add: SEAGenerator_init_def restart_def prepare_for_use_def)
qed

theorem restart_determinism_witness:
  "next_instances counting_draws
       (restart counting_draws (configure counting_draws 1 7 True 0.2)) [1, 2]
     = next_instances counting_draws
         (prepare_for_use counting_draws (configure counting_draws 1 7 True 0.2)) [1, 2]
   \<and> prepare_for_use counting_draws
        (prepare_for_use counting_draws (configure counting_draws 1 7 True 0.2))
      = prepare_for_use counting_draws (configure counting_draws 1 7 True 0.2)"
  using restart_determinism[of counting_draws "configure counting_draws 1 7 True 0.2" "[1, 2]"]
  by (simp add: SEAGenerator_init_def configure_def)

subsection \<open>Construction\<close>






section \<open>Properties of the demo loop\<close>

subsection \<open>The calls of the loop\<close>

lemma score_cases: "score y p = Inl IndexError \<or> score y p = Inr 0 \<or> score y p = Inr 1"
  by (auto simp: score_def py_getitem_def split: option.splits sum.splits)

lemma score_None: "score y None = Inr 0"
  by (simp add: score_def)


lemma predicts_loop_trace: "length (filter is_predict (loop_trace k its)) = length its"
  by (induction its arbitrary: k) auto



lemma demo_loop_trace:
  "\<exists>its. calls (fst (demo_loop S C m s)) = calls s @ loop_trace (n_pulls s) its
     \<and> correctly_classified (fst (demo_loop S C m s)) = correctly_classified s + hits (loop_trace (n_pulls s) its)
     \<and> (case snd (demo_loop S C m s) of
           None \<Rightarrow> demo_sample_count (fst (demo_loop S C m s)) = demo_sample_count s + int (length its)
                   \<and> m \<le> demo_sample_count (fst (demo_loop S C m s))
                   \<and> (demo_sample_count s \<le> m \<longrightarrow> demo_sample_count (fst (demo_loop S C m s)) = m)
         | Some e \<Rightarrow> e = IndexError
                   \<and> demo_sample_count (fst (demo_loop S C m s)) + 1 = demo_sample_count s + int (length its)
                   \<and> (\<exists>p y c. its \<noteq> [] \<and> last its = (Some p, y, c) \<and> (p = [] \<or> y = [])))
     \<and> (m \<le> demo_sample_count s \<longrightarrow> its = [])
     \<and> (\<forall>it \<in> set its. \<exists>cs X. fst it = clf_predict C cs X)"
proof (induction S C m s rule: demo_loop.induct)
  case (1 S C m s)
  show ?case
  proof (cases "demo_sample_count s < m")
    case False
    then show ?thesis
      by (intro exI[of _ "[]"]) (simp add: demo_loop.simps[of S C m s])
  next
    case True
    define X where "X = fst (fst (stream_next S (stream s) 1))"
    define y where "y = snd (fst (stream_next S (stream s) 1))"
    define stream' where "stream' = snd (stream_next S (stream s) 1)"
    define my_pred where "my_pred = clf_predict C (clf s) X"
    define clf' where "clf' = (if first s
                     then clf_partial_fit C (clf s) X y (Some (stream_classes S stream'))
                     else clf_partial_fit C (clf s) X y None)"
    define s' where "s' = s\<lparr>stream := stream', clf := clf', first := False,
                    calls := calls s @ [NextInstance (n_pulls s) 1, Predict (n_pulls s) my_pred,
                                        PartialFit (n_pulls s) y (first s)],
                    n_pulls := Suc (n_pulls s)\<rparr>"
    note defs = X_def y_def stream'_def my_pred_def clf'_def s'_def
    show ?thesis
    proof (cases "score y my_pred")
      case (Inl e)
      have run: "demo_loop S C m s = (s', Some e)"
        using True Inl by (subst demo_loop.simps) (simp add: Let_def defs)
      from Inl score_cases[of y my_pred] have e: "e = IndexError" by auto
      from Inl obtain p where p: "my_pred = Some p" "p = [] \<or> y = []"
        by (auto simp: score_def py_getitem_def split: option.splits sum.splits if_splits)
      have "\<exists>cs X. my_pred = clf_predict C cs X" unfolding my_pred_def by blast
      then show ?thesis
        using p e Inl True
        by (intro exI[of _ "[(my_pred, y, first s)]"]) (simp add: run s'_def)
    next
      case (Inr h)
      define s'' where "s'' = s'\<lparr>correctly_classified := correctly_classified s + h,
                      demo_sample_count := demo_sample_count s + 1\<rparr>"
      have run: "demo_loop S C m s = demo_loop S C m s''"
        using True Inr by (subst demo_loop.simps) (simp add: Let_def defs s''_def)
      have "\<exists>its. calls (fst (demo_loop S C m s'')) = calls s'' @ loop_trace (n_pulls s'') its
     \<and> correctly_classified (fst (demo_loop S C m s'')) = correctly_classified s'' + hits (loop_trace (n_pulls s'') its)
     \<and> (case snd (demo_loop S C m s'') of
           None \<Rightarrow> demo_sample_count (fst (demo_loop S C m s'')) = demo_sample_count s'' + int (length its)
                   \<and> m \<le> demo_sample_count (fst (demo_loop S C m s''))
                   \<and> (demo_sample_count s'' \<le> m \<longrightarrow> demo_sample_count (fst (demo_loop S C m s'')) = m)
         | Some e \<Rightarrow> e = IndexError
                   \<and> demo_sample_count (fst (demo_loop S C m s'')) + 1 = demo_sample_count s'' + int (length its)
                   \<and> (\<exists>p y c. its \<noteq> [] \<and> last its = (Some p, y, c) \<and> (p = [] \<or> y = [])))
     \<and> (m \<le> demo_sample_count s'' \<longrightarrow> its = [])
     \<and> (\<forall>it \<in> set its. \<exists>cs X. fst it = clf_predict C cs X)"
        unfolding s''_def s'_def clf'_def my_pred_def stream'_def y_def X_def
        by (rule 1[OF True refl refl refl refl refl refl refl, of h])
           (use Inr in \<open>simp add: defs\<close>)
      then obtain its where its:
        "calls (fst (demo_loop S C m s'')) = calls s'' @ loop_trace (n_pulls s'') its"
        "correctly_classified (fst (demo_loop S C m s'')) = correctly_classified s'' + hits (loop_trace (n_pulls s'') its)"
        "(case snd (demo_loop S C m s'') of
           None \<Rightarrow> demo_sample_count (fst (demo_loop S C m s'')) = demo_sample_count s'' + int (length its)
                   \<and> m \<le> demo_sample_count (fst (demo_loop S C m s''))
                   \<and> (demo_sample_count s'' \<le> m \<longrightarrow> demo_sample_count (fst (demo_loop S C m s'')) = m)
         | Some e \<Rightarrow> e = IndexError
                   \<and> demo_sample_count (fst (demo_loop S C m s'')) + 1 = demo_sample_count s'' + int (length its)
                   \<and> (\<exists>p y c. its \<noteq> [] \<and> last its = (Some p, y, c) \<and> (p = [] \<or> y = [])))"
        "\<forall>it \<in> set its. \<exists>cs X. fst it = clf_predict C cs X"
        by blast
      have "\<exists>cs X. my_pred = clf_predict C cs X" unfolding my_pred_def by blast
      then show ?thesis
        using its True Inr
        by (intro exI[of _ "(my_pred, y, first s) # its"])
           (auto simp: run s''_def s'_def split: option.splits)
    qed
  qed
qed

lemma hits_all_none:
  "\<forall>it \<in> set its. fst it = None \<Longrightarrow> hits (loop_trace k its) = 0"
proof (induction its arbitrary: k)
  case Nil
  then show ?case by simp
next
  case (Cons it its)
  obtain p y c where it: "it = (p, y, c)" by (cases it)
  with Cons.prems have "p = None" by simp
  with Cons show ?case by (simp add: it score_None)
qed

lemma answers_all_none:
  "\<forall>it \<in> set its. fst it = None \<Longrightarrow> filter is_answer (loop_trace k its) = []"
proof (induction its arbitrary: k)
  case Nil
  then show ?case by simp
next
  case (Cons it its)
  obtain p y c where it: "it = (p, y, c)" by (cases it)
  with Cons.prems have "p = None" by simp
  with Cons show ?case by (simp add: it)
qed

text \<open>The calls of the pretraining phase, and the number of the first batch of the loop.\<close>

lemma demo_run_trace:
  fixes S :: "('s, 'x, 'y) stream_ops" and C :: "('c, 'x, 'y) classifier_ops"
  defines "pretrain \<equiv> (\<lambda>train_size stream0.
             if 0 < train_size
             then [NextInstance 0 train_size,
                   PartialFit 0 (snd (fst (stream_next S stream0 train_size))) True]
             else [])"
  shows "\<exists>its. calls (fst (demo_run S C stream0 clf0 m train_size))
                = pretrain train_size stream0 @ loop_trace (if 0 < train_size then 1 else 0) its
     \<and> correctly_classified (fst (demo_run S C stream0 clf0 m train_size))
         = hits (loop_trace (if 0 < train_size then 1 else 0) its)
     \<and> (\<forall>it \<in> set its. \<exists>cs X. fst it = clf_predict C cs X)
     \<and> (m \<le> 0 \<longrightarrow> its = [])
     \<and> (case snd (demo_run S C stream0 clf0 m train_size) of
           Inr perf \<Rightarrow>
             demo_sample_count (fst (demo_run S C stream0 clf0 m train_size)) = int (length its)
             \<and> int (length its) = m \<and> 0 < m
             \<and> perf = real_of_int (correctly_classified (fst (demo_run S C stream0 clf0 m train_size)))
                       / real_of_int m
         | Inl e \<Rightarrow>
             (e = ZeroDivisionError \<and> its = [] \<and> m \<le> 0
                \<and> demo_sample_count (fst (demo_run S C stream0 clf0 m train_size)) = 0)
             \<or> (e = IndexError
                \<and> demo_sample_count (fst (demo_run S C stream0 clf0 m train_size)) + 1 = int (length its)
                \<and> (\<exists>p y c. its \<noteq> [] \<and> last its = (Some p, y, c) \<and> (p = [] \<or> y = []))))"
proof -
  define s0 :: "('s, 'c, 'y) demo_state" where
    "s0 = \<lparr>stream = stream0, clf = clf0, demo_sample_count = 0, correctly_classified = 0,
                first = True, calls = [], n_pulls = 0\<rparr>"
  define s1 where "s1 = (if train_size > 0
                then (let batch = fst (stream_next S stream0 train_size);
                          stream' = snd (stream_next S stream0 train_size)
                      in s0\<lparr>stream := stream',
                            clf := clf_partial_fit C clf0 (fst batch) (snd batch)
                                     (Some (stream_classes S stream')),
                            first := False,
                            calls := [NextInstance 0 train_size, PartialFit 0 (snd batch) True],
                            n_pulls := 1\<rparr>)
                else s0)"
  have s1: "calls s1 = pretrain train_size stream0" "n_pulls s1 = (if 0 < train_size then 1 else 0)"
    "demo_sample_count s1 = 0" "correctly_classified s1 = 0"
    by (simp_all add: s1_def s0_def pretrain_def Let_def)
  define final where "final = demo_loop S C m s1"
  have run: "demo_run S C stream0 clf0 m train_size =
          (fst final,
           case snd final of
            Some e \<Rightarrow> Inl e
          | None \<Rightarrow>
              (if demo_sample_count (fst final) = 0 then Inl ZeroDivisionError
               else Inr (real_of_int (correctly_classified (fst final))
                         / real_of_int (demo_sample_count (fst final)))))"
    unfolding demo_run_def final_def s1_def s0_def Let_def ..
  from demo_loop_trace[of S C m s1] obtain its where its:
    "calls (fst final) = calls s1 @ loop_trace (n_pulls s1) its"
    "correctly_classified (fst final) = correctly_classified s1 + hits (loop_trace (n_pulls s1) its)"
    "(case snd final of
           None \<Rightarrow> demo_sample_count (fst final) = demo_sample_count s1 + int (length its)
                   \<and> m \<le> demo_sample_count (fst final)
                   \<and> (demo_sample_count s1 \<le> m \<longrightarrow> demo_sample_count (fst final) = m)
         | Some e \<Rightarrow> e = IndexError
                   \<and> demo_sample_count (fst final) + 1 = demo_sample_count s1 + int (length its)
                   \<and> (\<exists>p y c. its \<noteq> [] \<and> last its = (Some p, y, c) \<and> (p = [] \<or> y = [])))"
    "m \<le> demo_sample_count s1 \<longrightarrow> its = []"
    "\<forall>it \<in> set its. \<exists>cs X. fst it = clf_predict C cs X"
    unfolding final_def by blast
  show ?thesis
  proof (intro exI[of _ its] conjI)
    show "case snd (demo_run S C stream0 clf0 m train_size) of
           Inr perf \<Rightarrow>
             demo_sample_count (fst (demo_run S C stream0 clf0 m train_size)) = int (length its)
             \<and> int (length its) = m \<and> 0 < m
             \<and> perf = real_of_int (correctly_classified (fst (demo_run S C stream0 clf0 m train_size)))
                       / real_of_int m
         | Inl e \<Rightarrow>
             (e = ZeroDivisionError \<and> its = [] \<and> m \<le> 0
                \<and> demo_sample_count (fst (demo_run S C stream0 clf0 m train_size)) = 0)
             \<or> (e = IndexError
                \<and> demo_sample_count (fst (demo_run S C stream0 clf0 m train_size)) + 1 = int (length its)
                \<and> (\<exists>p y c. its \<noteq> [] \<and> last its = (Some p, y, c) \<and> (p = [] \<or> y = [])))"
    proof (cases "snd final")
      case None
      with its(3) s1(3) have sc: "demo_sample_count (fst final) = int (length its)"
        "m \<le> int (length its)" "0 \<le> m \<longrightarrow> int (length its) = m" by auto
      show ?thesis
      proof (cases "its = []")
        case True
        with sc show ?thesis by (simp add: run None)
      next
        case False
        with its(4) s1(3) have "0 < m" by auto
        with sc False show ?thesis by (simp add: run None)
      qed
    next
      case (Some e)
      with its(3) s1(3) show ?thesis by (simp add: run)
    qed
  qed (use its s1 in \<open>simp_all add: run\<close>)
qed

lemma demo_small_run:
  "calls (fst (demo_run constant_stream cold_classifier () 0 2 10))
     = [NextInstance 0 10, PartialFit 0 (replicate 10 True) True,
        NextInstance 1 1, Predict 1 None, PartialFit 1 [True] False,
        NextInstance 2 1, Predict 2 (Some [True]), PartialFit 2 [True] False]
   \<and> demo_sample_count (fst (demo_run constant_stream cold_classifier () 0 2 10)) = 2
   \<and> correctly_classified (fst (demo_run constant_stream cold_classifier () 0 2 10)) = 1
   \<and> snd (demo_run constant_stream cold_classifier () 0 2 10) = Inr (1 / 2)"
  by (simp add: demo_run_def demo_loop.simps Let_def constant_stream_def cold_classifier_def
        score_def py_getitem_def)

lemma hits_after_pretrain:
  "hits ((if b then [NextInstance 0 n, PartialFit 0 y True] else []) @ loop_trace k its)
     = hits (loop_trace k its)"
  by (cases its) auto

lemma predicts_after_pretrain:
  "filter is_predict ((if b then [NextInstance 0 n, PartialFit 0 y True] else []) @ loop_trace k its)
     = filter is_predict (loop_trace k its)"
  by simp

lemma answers_after_pretrain:
  "filter is_answer ((if b then [NextInstance 0 n, PartialFit 0 y True] else []) @ loop_trace k its)
     = filter is_answer (loop_trace k its)"
  by simp

lemma warm_iteration:
  fixes s :: "(unit, nat, bool) demo_state"
  assumes "10 < clf s" and "demo_sample_count s < m"
  shows "demo_loop constant_stream cold_classifier m s =
         demo_loop constant_stream cold_classifier m
           (s\<lparr>stream := (), clf := clf s + 1, first := False,
              calls := calls s @ [NextInstance (n_pulls s) 1, Predict (n_pulls s) (Some [True]),
                                  PartialFit (n_pulls s) [True] (first s)],
              n_pulls := Suc (n_pulls s),
              correctly_classified := correctly_classified s + 1,
              demo_sample_count := demo_sample_count s + 1\<rparr>)"
  using assms
  by (subst demo_loop.simps)
     (simp add: Let_def constant_stream_def cold_classifier_def score_def py_getitem_def)

lemma cold_iteration:
  fixes s :: "(unit, nat, bool) demo_state"
  assumes "clf s \<le> 10" and "demo_sample_count s < m"
  shows "demo_loop constant_stream cold_classifier m s =
         demo_loop constant_stream cold_classifier m
           (s\<lparr>stream := (), clf := clf s + 1, first := False,
              calls := calls s @ [NextInstance (n_pulls s) 1, Predict (n_pulls s) None,
                                  PartialFit (n_pulls s) [True] (first s)],
              n_pulls := Suc (n_pulls s),
              correctly_classified := correctly_classified s,
              demo_sample_count := demo_sample_count s + 1\<rparr>)"
  using assms
  by (subst demo_loop.simps)
     (simp add: Let_def constant_stream_def cold_classifier_def score_def)

lemma warm_loop:
  fixes s :: "(unit, nat, bool) demo_state"
  shows "10 < clf s \<Longrightarrow> demo_sample_count s \<le> m \<Longrightarrow>
     snd (demo_loop constant_stream cold_classifier m s) = None
     \<and> demo_sample_count (fst (demo_loop constant_stream cold_classifier m s)) = m
     \<and> correctly_classified (fst (demo_loop constant_stream cold_classifier m s))
         = correctly_classified s + (m - demo_sample_count s)
     \<and> int (length (filter is_answer (calls (fst (demo_loop constant_stream cold_classifier m s)))))
         = int (length (filter is_answer (calls s))) + (m - demo_sample_count s)"
proof (induction "nat (m - demo_sample_count s)" arbitrary: s)
  case 0
  then have "\<not> demo_sample_count s < m" and "demo_sample_count s = m" by simp_all
  then show ?case by (subst (1 2 3 4) demo_loop.simps) simp
next
  case (Suc n)
  then have lt: "demo_sample_count s < m" by simp
  let ?s = "s\<lparr>stream := (), clf := clf s + 1, first := False,
              calls := calls s @ [NextInstance (n_pulls s) 1, Predict (n_pulls s) (Some [True]),
                                  PartialFit (n_pulls s) [True] (first s)],
              n_pulls := Suc (n_pulls s),
              correctly_classified := correctly_classified s + 1,
              demo_sample_count := demo_sample_count s + 1\<rparr>"
  have "n = nat (m - demo_sample_count ?s)" using Suc.hyps(2) by simp
  moreover have "10 < clf ?s" using Suc.prems(1) by simp
  moreover have "demo_sample_count ?s \<le> m" using lt by simp
  ultimately have IH: "snd (demo_loop constant_stream cold_classifier m ?s) = None
     \<and> demo_sample_count (fst (demo_loop constant_stream cold_classifier m ?s)) = m
     \<and> correctly_classified (fst (demo_loop constant_stream cold_classifier m ?s))
         = correctly_classified ?s + (m - demo_sample_count ?s)
     \<and> int (length (filter is_answer (calls (fst (demo_loop constant_stream cold_classifier m ?s)))))
         = int (length (filter is_answer (calls ?s))) + (m - demo_sample_count ?s)"
    by (rule Suc.hyps(1))
  show ?case
    unfolding warm_iteration[OF Suc.prems(1) lt] using IH by simp
qed

subsection \<open>Test, then train\<close>



subsection \<open>Pretraining\<close>



subsection \<open>A prediction of None\<close>

text \<open>
  Claim C3, as the code has it. A prediction of \<open>None\<close> never raises and is never
  counted as correct, but it is counted in the denominator: \<open>sample_count\<close> is
  incremented in every iteration, so the performance printed is
  \<open>correctly_classified\<close> divided by the number of all predictions made, those that
  returned \<open>None\<close> included, which is \<open>max_samples\<close>. In particular, with a
  classifier that always returns \<open>None\<close> the run ends without \<open>IndexError\<close>, with
  no hit, and (for \<open>max_samples > 0\<close>) prints the performance \<open>0\<close> over
  \<open>max_samples\<close> samples.
\<close>

theorem none_prediction_is_counted:
  "(snd (demo_run S C stream0 clf0 max_samples train_size) = Inr perf \<longrightarrow>
      perf = real_of_int (correctly_classified (fst (demo_run S C stream0 clf0 max_samples train_size)))
             / real (length (filter is_predict
                   (calls (fst (demo_run S C stream0 clf0 max_samples train_size)))))
      \<and> int (length (filter is_predict
                   (calls (fst (demo_run S C stream0 clf0 max_samples train_size))))) = max_samples
      \<and> demo_sample_count (fst (demo_run S C stream0 clf0 max_samples train_size)) = max_samples
      \<and> correctly_classified (fst (demo_run S C stream0 clf0 max_samples train_size))
          = hits (calls (fst (demo_run S C stream0 clf0 max_samples train_size))))
   \<and> ((\<forall>cs X. clf_predict C cs X = None) \<longrightarrow>
        snd (demo_run S C stream0 clf0 max_samples train_size) \<noteq> Inl IndexError
        \<and> correctly_classified (fst (demo_run S C stream0 clf0 max_samples train_size)) = 0
        \<and> filter is_answer (calls (fst (demo_run S C stream0 clf0 max_samples train_size))) = []
        \<and> (0 < max_samples \<longrightarrow>
             snd (demo_run S C stream0 clf0 max_samples train_size) = Inr 0
             \<and> demo_sample_count (fst (demo_run S C stream0 clf0 max_samples train_size))
                 = max_samples))"
proof -
  let ?r = "demo_run S C stream0 clf0 max_samples train_size"
  let ?k = "if 0 < train_size then 1 else 0 :: nat"
  from demo_run_trace[of S C stream0 clf0 max_samples train_size] obtain its where
    its: "calls (fst ?r) = (if 0 < train_size
             then [NextInstance 0 train_size,
                   PartialFit 0 (snd (fst (stream_next S stream0 train_size))) True]
             else []) @ loop_trace ?k its"
      "correctly_classified (fst ?r) = hits (loop_trace ?k its)"
      "\<forall>it \<in> set its. \<exists>cs X. fst it = clf_predict C cs X"
      "max_samples \<le> 0 \<longrightarrow> its = []"
      "case snd ?r of
           Inr perf \<Rightarrow>
             demo_sample_count (fst ?r) = int (length its)
             \<and> int (length its) = max_samples \<and> 0 < max_samples
             \<and> perf = real_of_int (correctly_classified (fst ?r)) / real_of_int max_samples
         | Inl e \<Rightarrow>
             (e = ZeroDivisionError \<and> its = [] \<and> max_samples \<le> 0 \<and> demo_sample_count (fst ?r) = 0)
             \<or> (e = IndexError
                \<and> demo_sample_count (fst ?r) + 1 = int (length its)
                \<and> (\<exists>p y c. its \<noteq> [] \<and> last its = (Some p, y, c) \<and> (p = [] \<or> y = [])))"
    by blast
  have np: "length (filter is_predict (calls (fst ?r))) = length its"
    unfolding its(1) predicts_after_pretrain by (rule predicts_loop_trace)
  have hh: "hits (calls (fst ?r)) = hits (loop_trace ?k its)"
    unfolding its(1) by (rule hits_after_pretrain)
  have part1: "perf = real_of_int (correctly_classified (fst ?r))
                       / real (length (filter is_predict (calls (fst ?r))))
      \<and> int (length (filter is_predict (calls (fst ?r)))) = max_samples
      \<and> demo_sample_count (fst ?r) = max_samples
      \<and> correctly_classified (fst ?r) = hits (calls (fst ?r))" if "snd ?r = Inr perf"
  proof -
    from its(5) that have a: "demo_sample_count (fst ?r) = int (length its)"
      "int (length its) = max_samples"
      "perf = real_of_int (correctly_classified (fst ?r)) / real_of_int max_samples" by simp_all
    from a(2) have "real_of_int max_samples = real (length its)" by (metis of_int_of_nat_eq)
    with a show ?thesis by (simp add: np hh its(2))
  qed
  have part2: "snd ?r \<noteq> Inl IndexError
        \<and> correctly_classified (fst ?r) = 0
        \<and> filter is_answer (calls (fst ?r)) = []
        \<and> (0 < max_samples \<longrightarrow> snd ?r = Inr 0 \<and> demo_sample_count (fst ?r) = max_samples)"
    if none: "\<forall>cs X. clf_predict C cs X = None"
  proof -
    from its(3) none have all: "\<forall>it \<in> set its. fst it = None" by auto
    have cc: "correctly_classified (fst ?r) = 0"
      using its(2) hits_all_none[OF all] by simp
    have ans: "filter is_answer (calls (fst ?r)) = []"
      unfolding its(1) answers_after_pretrain by (rule answers_all_none[OF all])
    have noerr: "snd ?r \<noteq> Inl IndexError"
    proof
      assume "snd ?r = Inl IndexError"
      with its(5) obtain p y c where "its \<noteq> []" "last its = (Some p, y, c)" by auto
      then have "(Some p, y, c) \<in> set its" by (metis last_in_set)
      with all show False by auto
    qed
    have "snd ?r = Inr 0 \<and> demo_sample_count (fst ?r) = max_samples" if "0 < max_samples"
    proof (cases "snd ?r")
      case (Inl e)
      with its(5) noerr that show ?thesis by auto
    next
      case (Inr perf)
      with its(5) cc show ?thesis by simp
    qed
    with cc ans noerr show ?thesis by simp
  qed
  from part1 part2 show ?thesis by blast
qed

theorem none_prediction_is_counted_witness:
  "snd (demo_run constant_stream cold_classifier () 0 2 10) = Inr (1 / 2)
   \<and> (1 / 2 :: real) = real_of_int (correctly_classified (fst (demo_run constant_stream cold_classifier () 0 2 10)))
             / real (length (filter is_predict
                   (calls (fst (demo_run constant_stream cold_classifier () 0 2 10)))))
   \<and> length (filter is_predict (calls (fst (demo_run constant_stream cold_classifier () 0 2 10)))) = 2
   \<and> length (filter is_answer (calls (fst (demo_run constant_stream cold_classifier () 0 2 10)))) = 1"
proof -
  have perf: "snd (demo_run constant_stream cold_classifier () 0 2 10) = Inr (1 / 2)"
    using demo_small_run by simp
  have ans: "length (filter is_answer (calls (fst (demo_run constant_stream cold_classifier () 0 2 10)))) = 1"
    using demo_small_run by simp
  from none_prediction_is_counted[of constant_stream cold_classifier "()" 0 2 10 "1 / 2"] perf ans
  show ?thesis by simp
qed

text \<open>
  The claim as stated (instances predicted \<open>None\<close> are excluded from the denominator)
  fails. Run \<open>demo\<close>, with its constants \<open>max_samples = 20000\<close> and
  \<open>train_size = 10\<close>, on a classifier that returns \<open>None\<close> for the first instance of
  the loop and is right on every later one: 19999 predictions return a value and all of
  them are hits, so the claim's quotient is 1, but the performance printed is
  19999 / 20000.
\<close>

theorem none_prediction_in_denominator_counterexample:
  "snd (demo constant_stream cold_classifier () 0) = Inr (19999 / 20000)
   \<and> correctly_classified (fst (demo constant_stream cold_classifier () 0)) = 19999
   \<and> int (length (filter is_answer (calls (fst (demo constant_stream cold_classifier () 0))))) = 19999
   \<and> demo_sample_count (fst (demo constant_stream cold_classifier () 0)) = 20000"
proof -
  define s1 :: "(unit, nat, bool) demo_state" where
    "s1 = \<lparr>stream = (), clf = 10, demo_sample_count = 0, correctly_classified = 0,
           first = False, calls = [NextInstance 0 10, PartialFit 0 (replicate 10 True) True],
           n_pulls = 1\<rparr>"
  define s2 :: "(unit, nat, bool) demo_state" where
    "s2 = \<lparr>stream = (), clf = 11, demo_sample_count = 1, correctly_classified = 0,
           first = False,
           calls = [NextInstance 0 10, PartialFit 0 (replicate 10 True) True,
                    NextInstance 1 1, Predict 1 None, PartialFit 1 [True] False],
           n_pulls = 2\<rparr>"
  have first_it: "demo_loop constant_stream cold_classifier 20000 s1
                  = demo_loop constant_stream cold_classifier 20000 s2"
  proof -
    have "s1\<lparr>stream := (), clf := clf s1 + 1, first := False,
              calls := calls s1 @ [NextInstance (n_pulls s1) 1, Predict (n_pulls s1) None,
                                   PartialFit (n_pulls s1) [True] (first s1)],
              n_pulls := Suc (n_pulls s1),
              correctly_classified := correctly_classified s1,
              demo_sample_count := demo_sample_count s1 + 1\<rparr> = s2"
      by (simp add: s1_def s2_def)
    moreover have "clf s1 \<le> 10" and "demo_sample_count s1 < 20000"
      by (simp_all add: s1_def)
    ultimately show ?thesis
      using cold_iteration[of s1 20000] by simp
  qed
  have warm: "snd (demo_loop constant_stream cold_classifier 20000 s2) = None
     \<and> demo_sample_count (fst (demo_loop constant_stream cold_classifier 20000 s2)) = 20000
     \<and> correctly_classified (fst (demo_loop constant_stream cold_classifier 20000 s2))
         = correctly_classified s2 + (20000 - demo_sample_count s2)
     \<and> int (length (filter is_answer (calls (fst (demo_loop constant_stream cold_classifier 20000 s2)))))
         = int (length (filter is_answer (calls s2))) + (20000 - demo_sample_count s2)"
    by (rule warm_loop) (simp_all add: s2_def)
  have pre: "(if (10::int) > 0
         then \<lparr>stream = (), clf = 0::nat, demo_sample_count = 0, correctly_classified = 0,
                first = True, calls = [], n_pulls = 0\<rparr>
              \<lparr>stream := snd (stream_next constant_stream () 10),
               clf := clf_partial_fit cold_classifier 0
                        (fst (fst (stream_next constant_stream () 10)))
                        (snd (fst (stream_next constant_stream () 10)))
                        (Some (stream_classes constant_stream (snd (stream_next constant_stream () 10)))),
               first := False,
               calls := [NextInstance 0 10,
                         PartialFit 0 (snd (fst (stream_next constant_stream () 10))) True],
               n_pulls := 1\<rparr>
         else \<lparr>stream = (), clf = 0::nat, demo_sample_count = 0, correctly_classified = 0,
                first = True, calls = [], n_pulls = 0\<rparr>) = s1"
    by (simp add: s1_def constant_stream_def cold_classifier_def)
  have run: "demo constant_stream cold_classifier () 0
       = (fst (demo_loop constant_stream cold_classifier 20000 s1),
          case snd (demo_loop constant_stream cold_classifier 20000 s1) of
            Some e \<Rightarrow> Inl e
          | None \<Rightarrow>
              (if demo_sample_count (fst (demo_loop constant_stream cold_classifier 20000 s1)) = 0
               then Inl ZeroDivisionError
               else Inr (real_of_int (correctly_classified
                                        (fst (demo_loop constant_stream cold_classifier 20000 s1)))
                         / real_of_int (demo_sample_count
                                        (fst (demo_loop constant_stream cold_classifier 20000 s1))))))"
    unfolding demo_def demo_run_def Let_def pre ..
  show ?thesis
    using warm unfolding run first_it by (simp add: s2_def)
qed

end
